theory Spec2Isabelle
  imports Main
begin

section \<open>Transactional access to the boot configuration file (boot\_config.py)\<close>

text \<open>
  A shallow embedding of \<^verbatim>\<open>src/kano_settings/boot_config.py\<close>: the accessor class
  \<^verbatim>\<open>BootConfig\<close>, the coordinator class \<^verbatim>\<open>ConfigTransaction\<close> and the part of the
  operating system they talk to (files, advisory locks, temporary names). A Python method
  that mutates \<^verbatim>\<open>self\<close> and the file system becomes a function from the pair
  (object, world) to a result and the new pair; a raised exception is the result
  \<open>Inl e\<close>, and the state it leaves behind is whatever had been assigned before the
  raise, as in Python.
\<close>

subsection \<open>Values, errors and the world outside the process\<close>

type_synonym path = string
type_synonym line = string

datatype error =
    LockTimeout        \<comment> \<open>\<^verbatim>\<open>open_locked(..., timeout=...)\<close> gave up\<close>
  | IOError            \<comment> \<open>a file could not be opened or read\<close>
  | OSError            \<comment> \<open>\<^verbatim>\<open>os.remove\<close> of a path that does not exist\<close>
  | TypeError          \<comment> \<open>\<^verbatim>\<open>None\<close> used where a path is needed\<close>
  | AttributeError     \<comment> \<open>method call on \<^verbatim>\<open>None\<close>\<close>
  | SameFileError      \<comment> \<open>\<^verbatim>\<open>shutil\<close> asked to copy a file onto itself\<close>
  | FileExistsError    \<comment> \<open>\<^verbatim>\<open>tempfile\<close> found no usable name\<close>
  | OpenTransactionError

text \<open>Python values that a configuration key can have.\<close>

datatype pyval = PyNone | PyInt int | PyStr string

text \<open>
  Modelled from the spec: the Filter Scope of \<^verbatim>\<open>boot_config_filter\<close> (not under src/),
  "an enum-like selector (e.g., ALL vs a named subset)" that the core forwards unchanged.
\<close>

datatype Filter = Filter_ALL | Filter_SUBSET string

text \<open>A file is an ordered list of lines, together with whether it can be read.\<close>

datatype fnode = File (readable: bool) (content: "line list")

text \<open>What the process asked the file system to do, in order.\<close>

datatype fsop =
    OpenW path          \<comment> \<open>opened for writing in mode \<^verbatim>\<open>'w'\<close>: truncated, rewritten in place\<close>
  | MkTemp path         \<comment> \<open>created by \<^verbatim>\<open>tempfile.NamedTemporaryFile\<close>\<close>
  | Copy path path      \<comment> \<open>\<^verbatim>\<open>shutil.copy2(src, dst)\<close>\<close>
  | Rename path path    \<comment> \<open>\<^verbatim>\<open>shutil.move(src, dst)\<close> inside one directory\<close>
  | Remove path         \<comment> \<open>\<^verbatim>\<open>os.remove\<close>\<close>

record world =
  files :: "path \<rightharpoonup> fnode"
  locked_elsewhere :: "path set"   \<comment> \<open>lock files held by other processes\<close>
  locks_held :: "path set"         \<comment> \<open>lock files held by this process\<close>
  tmp_names :: "path list"         \<comment> \<open>the candidate names \<^verbatim>\<open>tempfile\<close> will try, in order\<close>
  dry_run :: bool                  \<comment> \<open>the module global of the same name\<close>
  trace :: "fsop list"

text \<open>The module constants.\<close>

definition default_config_path :: path where
  "default_config_path = ''/usr/share/kano-settings/boot_default/config.txt''"

definition boot_config_standard_path :: path where
  "boot_config_standard_path = ''/boot/config.txt''"

definition lock_dir :: path where
  "lock_dir = ''/run/lock''"

definition noobs_line :: line where
  "noobs_line = ''# NOOBS Auto-generated Settings:''"

definition set_dry_run :: "world \<Rightarrow> world" where
  "set_dry_run w = w\<lparr>dry_run := True\<rparr>"

subsection \<open>Library calls\<close>

definition os_path_exists :: "world \<Rightarrow> path \<Rightarrow> bool" where
  "os_path_exists w p = (files w p \<noteq> None)"

text \<open>
  Modelled from the spec: \<^verbatim>\<open>read_file_contents_as_lines\<close> of \<^verbatim>\<open>kano.utils\<close> (not under
  src/), the Line Store's "raw read of a file into an ordered list of text lines", whose
  "NotFound-equivalent behavior [is] represented as an empty sequence". A file that is
  there and cannot be read raises.
\<close>

definition read_file_contents_as_lines :: "world \<Rightarrow> path \<Rightarrow> error + line list" where
  "read_file_contents_as_lines w p =
     (case files w p of
        None \<Rightarrow> Inr []
      | Some f \<Rightarrow> if readable f then Inr (content f) else Inl IOError)"

text \<open>
  A string that is written with a line break after it, \<^verbatim>\<open>f.write(s + '\n')\<close>, and read
  back: the lines it makes are the pieces of \<open>s\<close> between its own line breaks. A string
  without a line break makes one line.
\<close>

definition newline :: char where
  "newline = CHR 0x0A"

fun split_lines :: "string \<Rightarrow> line list" where
  "split_lines [] = [[]]"
| "split_lines (c # cs) =
     (if c = newline then [] # split_lines cs
      else (case split_lines cs of [] \<Rightarrow> [[c]] | l # ls \<Rightarrow> (c # l) # ls))"

text \<open>
  \<^verbatim>\<open>with open_locked(path, 'w') as f\<close>, the writes of the strings of \<open>ls\<close>, each
  followed by a line break, \<^verbatim>\<open>flush\<close> and \<^verbatim>\<open>fsync\<close>: the file is created or truncated
  and then holds the text written, whose lines are the pieces of each string.
\<close>

definition write_lines :: "path \<Rightarrow> string list \<Rightarrow> world \<Rightarrow> world" where
  "write_lines p ls w =
     w\<lparr>files := (files w)(p \<mapsto> File (case files w p of None \<Rightarrow> True | Some f \<Rightarrow> readable f)
                                  (concat (map split_lines ls))),
       trace := trace w @ [OpenW p]\<rparr>"

text \<open>
  \<^verbatim>\<open>shutil.copy2(src, dst)\<close>: refuses to copy a file onto itself, needs a source it can
  read, and leaves at \<open>dst\<close> a copy of the source with the source's permissions.
\<close>

definition shutil_copy2 :: "path \<Rightarrow> path \<Rightarrow> world \<Rightarrow> (error + unit) \<times> world" where
  "shutil_copy2 src dst w =
     (case files w src of
        None \<Rightarrow> (Inl IOError, w)
      | Some f \<Rightarrow>
          if src = dst then (Inl SameFileError, w)
          else if \<not> readable f then (Inl IOError, w)
          else (Inr (), w\<lparr>files := (files w)(dst \<mapsto> f), trace := trace w @ [Copy src dst]\<rparr>))"

text \<open>\<^verbatim>\<open>shutil.move(src, dst)\<close> with both paths in one directory: \<^verbatim>\<open>os.rename\<close>.\<close>

definition shutil_move :: "path \<Rightarrow> path \<Rightarrow> world \<Rightarrow> (error + unit) \<times> world" where
  "shutil_move src dst w =
     (case files w src of
        None \<Rightarrow> (Inl IOError, w)
      | Some f \<Rightarrow>
          if src = dst then (Inr (), w)
          else (Inr (), w\<lparr>files := (files w)(dst \<mapsto> f, src := None),
                          trace := trace w @ [Rename src dst]\<rparr>))"

text \<open>\<^verbatim>\<open>os.remove(p)\<close>, where \<open>p\<close> may be Python's \<^verbatim>\<open>None\<close>.\<close>

definition os_remove :: "path option \<Rightarrow> world \<Rightarrow> (error + unit) \<times> world" where
  "os_remove po w =
     (case po of
        None \<Rightarrow> (Inl TypeError, w)
      | Some p \<Rightarrow>
          if files w p = None then (Inl OSError, w)
          else (Inr (), w\<lparr>files := (files w)(p := None), trace := trace w @ [Remove p]\<rparr>))"

text \<open>
  \<^verbatim>\<open>tempfile.NamedTemporaryFile(mode='w', delete=False, prefix="config_tmp_", dir=...)\<close>
  followed by \<^verbatim>\<open>temp.close()\<close>: the first candidate name that no file has yet is
  created empty; the candidates tried are used up.
\<close>

definition NamedTemporaryFile :: "world \<Rightarrow> (error + path) \<times> world" where
  "NamedTemporaryFile w =
     (case dropWhile (\<lambda>n. files w n \<noteq> None) (tmp_names w) of
        [] \<Rightarrow> (Inl FileExistsError, w\<lparr>tmp_names := []\<rparr>)
      | n # rest \<Rightarrow>
          (Inr n, w\<lparr>files := (files w)(n \<mapsto> File True []), tmp_names := rest,
                    trace := trace w @ [MkTemp n]\<rparr>))"

text \<open>
  \<^verbatim>\<open>open_locked(lockpath, 'w', timeout=lock_timeout)\<close>: an exclusive advisory lock on the
  lock file. It is granted unless somebody holds it; then the call gives up after the timeout.
  The handle returned is identified with the path it locks.
\<close>

definition open_locked :: "path \<Rightarrow> world \<Rightarrow> (error + path) \<times> world" where
  "open_locked lp w =
     (if lp \<in> locked_elsewhere w \<or> lp \<in> locks_held w then (Inl LockTimeout, w)
      else (Inr lp, w\<lparr>locks_held := insert lp (locks_held w)\<rparr>))"

text \<open>\<^verbatim>\<open>self.lock.close()\<close>, where \<^verbatim>\<open>self.lock\<close> may be \<^verbatim>\<open>None\<close>.\<close>

definition lock_close :: "path option \<Rightarrow> world \<Rightarrow> (error + unit) \<times> world" where
  "lock_close lo w =
     (case lo of
        None \<Rightarrow> (Inl AttributeError, w)
      | Some lp \<Rightarrow> (Inr (), w\<lparr>locks_held := locks_held w - {lp}\<rparr>))"

text \<open>Python's \<^verbatim>\<open>m in l\<close> on strings: \<open>m\<close> occurs in \<open>l\<close> as a contiguous piece.\<close>

fun startswith :: "string \<Rightarrow> string \<Rightarrow> bool" where
  "startswith l [] = True"
| "startswith [] (c # m) = False"
| "startswith (d # l) (c # m) = (d = c \<and> startswith l m)"

fun str_in :: "string \<Rightarrow> string \<Rightarrow> bool" where
  "str_in m [] = (m = [])"
| "str_in m (d # l) = (startswith (d # l) m \<or> str_in m l)"

text \<open>
  The Document Engine (\<^verbatim>\<open>BootConfigParser\<close>, not under src/) is a parameter: what
  \<^verbatim>\<open>BootConfigParser(lines).get(...)\<close> returns, and the lines that
  \<^verbatim>\<open>config.set(...); config.dump()\<close> produce.
\<close>

record parser =
  parser_get :: "line list \<Rightarrow> string \<Rightarrow> Filter \<Rightarrow> bool \<Rightarrow> bool \<Rightarrow> pyval"
  parser_set_dump :: "line list \<Rightarrow> string \<Rightarrow> pyval \<Rightarrow> Filter \<Rightarrow> line list"

subsection \<open>class BootConfig\<close>

record BootConfig =
  bc_path :: path
  read_only :: bool

definition BootConfig_init :: "path \<Rightarrow> BootConfig" where
  "BootConfig_init p = \<lparr>bc_path = p, read_only = True\<rparr>"

definition exists_file :: "BootConfig \<Rightarrow> world \<Rightarrow> bool" where
  "exists_file b w = os_path_exists w (bc_path b)"

definition ensure_exists :: "BootConfig \<Rightarrow> world \<Rightarrow> world" where
  "ensure_exists b w = (if \<not> exists_file b w then write_lines (bc_path b) [''#''] w else w)"

definition noobs_defaults_present :: "BootConfig \<Rightarrow> world \<Rightarrow> error + bool" where
  "noobs_defaults_present b w =
     (case read_file_contents_as_lines w (bc_path b) of
        Inl e \<Rightarrow> Inl e
      | Inr lines \<Rightarrow> Inr (noobs_line \<in> set lines))"

text \<open>The loop of \<^verbatim>\<open>_remove_noobs_defaults\<close>: lines are written until the sentinel breaks it.\<close>

fun lines_before_noobs :: "line list \<Rightarrow> line list" where
  "lines_before_noobs [] = []"
| "lines_before_noobs (l # ls) = (if l = noobs_line then [] else l # lines_before_noobs ls)"

definition remove_noobs_defaults_file :: "BootConfig \<Rightarrow> world \<Rightarrow> (error + unit) \<times> world" where
  "remove_noobs_defaults_file b w =
     (case read_file_contents_as_lines w (bc_path b) of
        Inl e \<Rightarrow> (Inl e, w)
      | Inr lines \<Rightarrow> (Inr (), write_lines (bc_path b) (lines_before_noobs lines) w))"

text \<open>
  \<^verbatim>\<open>check_corrupt\<close>: the two nested loops collect in \<open>found\<close> the markers that occur in
  some line; the bare \<^verbatim>\<open>except\<close> turns a failed read into the answer \<open>True\<close>.
\<close>

definition must_contain :: "string list" where
  "must_contain = [''dtparam'']"

fun found_markers :: "line list \<Rightarrow> string set \<Rightarrow> string set" where
  "found_markers [] found = found"
| "found_markers (l # ls) found =
     found_markers ls (fold (\<lambda>m acc. if str_in m l then insert m acc else acc) must_contain found)"

definition check_corrupt :: "BootConfig \<Rightarrow> world \<Rightarrow> error + bool" where
  "check_corrupt b w =
     (if \<not> os_path_exists w (bc_path b) then Inr True
      else case read_file_contents_as_lines w (bc_path b) of
             Inl e \<Rightarrow> Inr True
           | Inr lines \<Rightarrow>
               if set must_contain = found_markers lines {} then Inr False else Inr True)"

definition set_value ::
  "parser \<Rightarrow> BootConfig \<Rightarrow> string \<Rightarrow> pyval \<Rightarrow> Filter \<Rightarrow> world \<Rightarrow> (error + unit) \<times> world" where
  "set_value P b name val config_filter w =
     (case read_file_contents_as_lines w (bc_path b) of
        Inl e \<Rightarrow> (Inl e, w)
      | Inr lines \<Rightarrow>
          if lines = [] then (Inr (), w)
          else (Inr (), write_lines (bc_path b) (parser_set_dump P lines name val config_filter) w))"

definition get_value ::
  "parser \<Rightarrow> BootConfig \<Rightarrow> string \<Rightarrow> Filter \<Rightarrow> bool \<Rightarrow> bool \<Rightarrow> world \<Rightarrow> error + pyval" where
  "get_value P b name config_filter fallback ignore_comments w =
     (case read_file_contents_as_lines w (bc_path b) of
        Inl e \<Rightarrow> Inl e
      | Inr lines \<Rightarrow>
          if lines = [] then Inr (PyInt 0)
          else Inr (parser_get P lines name config_filter fallback ignore_comments))"

definition comment_str_full :: "string \<Rightarrow> string \<Rightarrow> string" where
  "comment_str_full name val = ''### '' @ name @ '': '' @ val"

definition comment_str_name :: "string \<Rightarrow> string" where
  "comment_str_name name = ''### '' @ name"

definition set_comment :: "BootConfig \<Rightarrow> string \<Rightarrow> string \<Rightarrow> world \<Rightarrow> (error + unit) \<times> world" where
  "set_comment b name val w =
     (case read_file_contents_as_lines w (bc_path b) of
        Inl e \<Rightarrow> (Inl e, w)
      | Inr lines \<Rightarrow>
          if lines = [] then (Inr (), w)
          else (Inr (), write_lines (bc_path b)
                  (comment_str_full name val #
                   filter (\<lambda>line. \<not> str_in (comment_str_name name) line) lines) w))"

definition get_comment :: "BootConfig \<Rightarrow> string \<Rightarrow> string \<Rightarrow> world \<Rightarrow> error + bool" where
  "get_comment b name val w =
     (case read_file_contents_as_lines w (bc_path b) of
        Inl e \<Rightarrow> Inl e
      | Inr lines \<Rightarrow>
          if lines = [] then Inr False else Inr (comment_str_full name val \<in> set lines))"

definition has_comment :: "BootConfig \<Rightarrow> string \<Rightarrow> world \<Rightarrow> error + bool" where
  "has_comment b name w =
     (case read_file_contents_as_lines w (bc_path b) of
        Inl e \<Rightarrow> Inl e
      | Inr lines \<Rightarrow>
          if lines = [] then Inr False
          else Inr (\<exists>l \<in> set lines. startswith l (''### '' @ name @ '':'')))"

subsection \<open>Sequencing calls that may raise\<close>

text \<open>
  \<open>then_do r f\<close> is "the call that gave \<open>r\<close>, then \<open>f\<close>": when the first call raised,
  the exception and the state at the raise are the result and \<open>f\<close> does not run.
\<close>

definition then_do ::
  "(error + 'a) \<times> 's \<Rightarrow> ('a \<Rightarrow> 's \<Rightarrow> (error + 'b) \<times> 's) \<Rightarrow> (error + 'b) \<times> 's" where
  "then_do r f = (case r of (Inl e, s) \<Rightarrow> (Inl e, s) | (Inr a, s) \<Rightarrow> f a s)"

text \<open>A library call made by the object \<open>c\<close>: it changes the world and leaves \<open>c\<close> alone.\<close>

definition in_world :: "'c \<Rightarrow> (error + 'a) \<times> world \<Rightarrow> (error + 'a) \<times> ('c \<times> world)" where
  "in_world c r = (fst r, (c, snd r))"

subsection \<open>class ConfigTransaction\<close>

text \<open>\<^verbatim>\<open>os.path.basename\<close>, \<^verbatim>\<open>os.path.dirname\<close> and \<^verbatim>\<open>os.path.join\<close> on POSIX paths.\<close>

definition basename :: "path \<Rightarrow> path" where
  "basename p = rev (takeWhile (\<lambda>c. c \<noteq> CHR ''/'') (rev p))"

definition dirname :: "path \<Rightarrow> path" where
  "dirname p =
     (let head = rev (dropWhile (\<lambda>c. c \<noteq> CHR ''/'') (rev p))
      in if head \<noteq> [] \<and> (\<exists>c \<in> set head. c \<noteq> CHR ''/'')
         then rev (dropWhile (\<lambda>c. c = CHR ''/'') (rev head)) else head)"

definition path_join :: "path \<Rightarrow> path \<Rightarrow> path" where
  "path_join a b =
     (if b \<noteq> [] \<and> hd b = CHR ''/'' then b
      else if a = [] \<or> last a = CHR ''/'' then a @ b
      else a @ ''/'' @ b)"

record ConfigTransaction =
  path :: path
  base :: path
  dir :: path
  lockpath :: path
  state :: "nat option"          \<comment> \<open>\<^verbatim>\<open>None\<close> only inside the constructor\<close>
  lock :: "path option"          \<comment> \<open>the handle of the lock held, or \<^verbatim>\<open>None\<close>\<close>
  temp_config :: BootConfig
  temp_path :: "path option"

type_synonym sys = "ConfigTransaction \<times> world"

text \<open>
  \<^verbatim>\<open>valid_state\<close>. \<^verbatim>\<open>isinstance(self.lock, open_locked)\<close> is "the lock is a handle, not
  \<^verbatim>\<open>None\<close>"; \<^verbatim>\<open>temp_config\<close> is a \<^verbatim>\<open>BootConfig\<close> by its type. In any other state the
  method falls off its end and returns \<^verbatim>\<open>None\<close>, which is false.
\<close>

definition valid_state :: "ConfigTransaction \<Rightarrow> bool" where
  "valid_state c =
     (if state c = Some 0 then
        lock c = None \<and> bc_path (temp_config c) = path c \<and> temp_path c = None
      else if state c = Some 1 then
        lock c \<noteq> None \<and> bc_path (temp_config c) = path c \<and> temp_path c = None
      else if state c = Some 2 then
        lock c \<noteq> None \<and> Some (bc_path (temp_config c)) = temp_path c \<and> temp_path c \<noteq> None
      else False)"

definition set_state_idle :: "sys \<Rightarrow> (error + unit) \<times> sys" where
  "set_state_idle s =
     (case s of (c, w) \<Rightarrow>
        let c1 = (if state c = None
                  then c\<lparr>temp_config := BootConfig_init (path c), temp_path := None,
                         lock := None, state := Some 0\<rparr>
                  else c);
            c2 = (if state c1 = Some 2
                  then c1\<lparr>temp_config := BootConfig_init (path c1), state := Some 1,
                          temp_path := None\<rparr>
                  else c1)
        in if state c2 = Some 1
           then then_do (in_world c2 (lock_close (lock c2) w))
                  (\<lambda>_ (c3, w3). (Inr (), (c3\<lparr>lock := None, state := Some 0\<rparr>, w3)))
           else (Inr (), (c2, w)))"

text \<open>
  \<^verbatim>\<open>__init__\<close>: before \<^verbatim>\<open>set_state_idle\<close> runs, \<^verbatim>\<open>lock\<close>, \<^verbatim>\<open>temp_config\<close> and
  \<^verbatim>\<open>temp_path\<close> are not assigned yet; the first branch of \<^verbatim>\<open>set_state_idle\<close> assigns
  all three, so their values here are never read.
\<close>

definition ConfigTransaction_init :: "path \<Rightarrow> world \<Rightarrow> (error + unit) \<times> sys" where
  "ConfigTransaction_init p w =
     set_state_idle
       (\<lparr>path = p, base = basename p, dir = dirname p,
         lockpath = path_join lock_dir (''kano_config_'' @ basename p @ ''.lock''),
         state = None, lock = None, temp_config = BootConfig_init p, temp_path = None\<rparr>, w)"

text \<open>\<^verbatim>\<open>raise_state_to_locked\<close>: the state is assigned first, the lock is taken second.\<close>

definition raise_state_to_locked :: "sys \<Rightarrow> (error + unit) \<times> sys" where
  "raise_state_to_locked s =
     (case s of (c, w) \<Rightarrow>
        if state c = Some 0
        then then_do (in_world (c\<lparr>state := Some 1\<rparr>) (open_locked (lockpath c) w))
               (\<lambda>h (c1, w1). (Inr (), (c1\<lparr>lock := Some h\<rparr>, w1)))
        else (Inr (), (c, w)))"

definition set_state_writable :: "sys \<Rightarrow> (error + unit) \<times> sys" where
  "set_state_writable s =
     then_do (if state (fst s) = Some 0 then raise_state_to_locked s else (Inr (), s))
       (\<lambda>_ (c1, w1).
          if state c1 = Some 1
          then then_do (in_world c1 (NamedTemporaryFile w1))
                 (\<lambda>n (c2, w2).
                    let c3 = c2\<lparr>temp_path := Some n\<rparr>
                    in then_do
                         (in_world c3
                            (if os_path_exists w2 (path c3)
                             then shutil_copy2 (path c3) n w2
                             else shutil_copy2 default_config_path n w2))
                         (\<lambda>_ (c4, w4).
                            (Inr (), (c4\<lparr>temp_config := BootConfig_init n, state := Some 2\<rparr>, w4))))
          else (Inr (), (c1\<lparr>state := Some 2\<rparr>, w1)))"

definition set_config_value ::
  "parser \<Rightarrow> string \<Rightarrow> pyval \<Rightarrow> Filter \<Rightarrow> sys \<Rightarrow> (error + unit) \<times> sys" where
  "set_config_value P name val config_filter s =
     then_do (set_state_writable s)
       (\<lambda>_ (c, w). in_world c (set_value P (temp_config c) name val config_filter w))"

definition get_config_value ::
  "parser \<Rightarrow> string \<Rightarrow> Filter \<Rightarrow> bool \<Rightarrow> bool \<Rightarrow> sys \<Rightarrow> (error + pyval) \<times> sys" where
  "get_config_value P name config_filter fallback ignore_comments s =
     then_do (raise_state_to_locked s)
       (\<lambda>_ (c, w).
          (get_value P (temp_config c) name config_filter fallback ignore_comments w, (c, w)))"

definition set_config_comment :: "string \<Rightarrow> string \<Rightarrow> sys \<Rightarrow> (error + unit) \<times> sys" where
  "set_config_comment name val s =
     then_do (set_state_writable s)
       (\<lambda>_ (c, w). in_world c (set_comment (temp_config c) name val w))"

definition get_config_comment :: "string \<Rightarrow> string \<Rightarrow> sys \<Rightarrow> (error + bool) \<times> sys" where
  "get_config_comment name val s =
     then_do (raise_state_to_locked s)
       (\<lambda>_ (c, w). (get_comment (temp_config c) name val w, (c, w)))"

definition has_config_comment :: "string \<Rightarrow> sys \<Rightarrow> (error + bool) \<times> sys" where
  "has_config_comment name s =
     then_do (raise_state_to_locked s)
       (\<lambda>_ (c, w). (has_comment (temp_config c) name w, (c, w)))"

text \<open>
  \<^verbatim>\<open>remove_noobs_defaults\<close>: only \<^verbatim>\<open>set_state_writable\<close> is under the \<^verbatim>\<open>if present\<close>;
  \<^verbatim>\<open>_remove_noobs_defaults\<close> runs in both cases, on whatever \<^verbatim>\<open>temp_config\<close> points at.
\<close>

definition remove_noobs_defaults :: "sys \<Rightarrow> (error + bool) \<times> sys" where
  "remove_noobs_defaults s =
     then_do (raise_state_to_locked s)
       (\<lambda>_ (c, w).
          then_do (noobs_defaults_present (temp_config c) w, (c, w))
            (\<lambda>present s1.
               then_do (if present then set_state_writable s1 else (Inr (), s1))
                 (\<lambda>_ (c2, w2).
                    then_do (in_world c2 (remove_noobs_defaults_file (temp_config c2) w2))
                      (\<lambda>_ s3. (Inr present, s3)))))"

text \<open>\<^verbatim>\<open>if self.temp_path:\<close> is false for \<^verbatim>\<open>None\<close> and for the empty string.\<close>

definition copy_to :: "path \<Rightarrow> sys \<Rightarrow> (error + unit) \<times> sys" where
  "copy_to dest s =
     then_do (raise_state_to_locked s)
       (\<lambda>_ (c, w).
          let p = (case temp_path c of
                     None \<Rightarrow> path c
                   | Some t \<Rightarrow> if t \<noteq> [] then t else path c)
          in in_world c (shutil_copy2 p dest w))"

definition copy_from :: "path \<Rightarrow> sys \<Rightarrow> (error + unit) \<times> sys" where
  "copy_from src s =
     then_do (set_state_writable s)
       (\<lambda>_ (c, w).
          case temp_path c of
            None \<Rightarrow> (Inl TypeError, (c, w))
          | Some t \<Rightarrow> in_world c (shutil_copy2 src t w))"

definition check_corrupt_config :: "sys \<Rightarrow> (error + bool) \<times> sys" where
  "check_corrupt_config s =
     then_do (raise_state_to_locked s)
       (\<lambda>_ (c, w).
          then_do (check_corrupt (temp_config c) w, (c, w))
            (\<lambda>corrupt s1.
               if corrupt
               then then_do (copy_from default_config_path s1) (\<lambda>_ s2. (Inr True, s2))
               else (Inr False, s1)))"

text \<open>
  \<^verbatim>\<open>close\<close>. After the move the source opens the directory, \<^verbatim>\<open>fsync\<close>s it and runs
  \<^verbatim>\<open>sync\<close>: these make the rename durable and change nothing that this model records.
\<close>

definition close :: "sys \<Rightarrow> (error + unit) \<times> sys" where
  "close s =
     then_do
       (case s of (c, w) \<Rightarrow>
          if state c = Some 2
          then if dry_run w then (Inr (), (c, w))
               else (case temp_path c of
                       None \<Rightarrow> (Inl TypeError, (c, w))
                     | Some t \<Rightarrow> in_world c (shutil_move t (path c) w))
          else (Inr (), (c, w)))
       (\<lambda>_ s1. set_state_idle s1)"

definition clean_up_exit :: "sys \<Rightarrow> (error + unit) \<times> sys" where
  "clean_up_exit s =
     (if (case state (fst s) of None \<Rightarrow> False | Some n \<Rightarrow> n > 1)
      then then_do (close s) (\<lambda>_ s1. (Inl OpenTransactionError, s1))
      else (Inr (), s))"

definition abort :: "sys \<Rightarrow> (error + unit) \<times> sys" where
  "abort s =
     then_do (case s of (c, w) \<Rightarrow> in_world c (os_remove (temp_path c) w))
       (\<lambda>_ s1. set_state_idle s1)"

subsection \<open>Example inputs\<close>

text \<open>
  A small world and coordinator on which the theorems below are instantiated: the live
  configuration file, the packaged default, two candidate temporary names, and the
  coordinator that \<^verbatim>\<open>ConfigTransaction(boot_config_standard_path)\<close> constructs.
\<close>

definition example_world :: world where
  "example_world =
     \<lparr>files = [boot_config_standard_path \<mapsto> File True [''dtparam=audio=on'', ''hdmi_group=2''],
               default_config_path \<mapsto> File True [''# default'', ''dtparam=audio=on'']],
      locked_elsewhere = {}, locks_held = {},
      tmp_names = [''/boot/config_tmp_a'', ''/boot/config_tmp_b''],
      dry_run = False, trace = []\<rparr>"

definition example_parser :: parser where
  "example_parser =
     \<lparr>parser_get = (\<lambda>lines name config_filter fallback ignore_comments. PyNone),
      parser_set_dump = (\<lambda>lines name val config_filter. lines)\<rparr>"

definition example_idle :: ConfigTransaction where
  "example_idle =
     \<lparr>path = boot_config_standard_path, base = ''config.txt'', dir = ''/boot'',
      lockpath = ''/run/lock/kano_config_config.txt.lock'',
      state = Some 0, lock = None,
      temp_config = BootConfig_init boot_config_standard_path, temp_path = None\<rparr>"

definition example_busy_world :: world where
  "example_busy_world = example_world\<lparr>locked_elsewhere := {lockpath example_idle}\<rparr>"

definition example_writable :: ConfigTransaction where
  "example_writable =
     example_idle\<lparr>state := Some 2, lock := Some (lockpath example_idle),
                  temp_config := BootConfig_init ''/boot/config_tmp_a'',
                  temp_path := Some ''/boot/config_tmp_a''\<rparr>"

definition example_staged_world :: world where
  "example_staged_world =
     example_world\<lparr>files := (files example_world)(''/boot/config_tmp_a'' \<mapsto>
                         File True [''dtparam=audio=on'', ''hdmi_group=2'']),
                    locks_held := {lockpath example_idle},
                    tmp_names := [''/boot/config_tmp_b''],
                    trace := [MkTemp ''/boot/config_tmp_a'',
                              Copy boot_config_standard_path ''/boot/config_tmp_a'']\<rparr>"

definition example_comment_world :: world where
  "example_comment_world =
     example_world\<lparr>files := (files example_world)(boot_config_standard_path \<mapsto>
        File True [''### foobar: v'', ''gpu_mem=64 ### foo'', ''### foo: old'', ''dtparam=audio=on''])\<rparr>"


text \<open>
  What the claims call a corrupt file, for the file the coordinator currently reads: it is
  absent, or cannot be read, or no line of it contains \<open>dtparam\<close>.
\<close>

definition corrupt_now :: "ConfigTransaction \<Rightarrow> world \<Rightarrow> bool" where
  "corrupt_now c w =
     (case files w (bc_path (temp_config c)) of
        None \<Rightarrow> True
      | Some f \<Rightarrow> \<not> (readable f \<and> (\<exists>l \<in> set (content f). str_in ''dtparam'' l)))"

definition example_corrupt_world :: world where
  "example_corrupt_world =
     example_world\<lparr>files := (files example_world)(boot_config_standard_path \<mapsto>
        File True [''hdmi_group=2''])\<rparr>"

subsection \<open>Cycles of set operations\<close>

text \<open>
  A caller's "set-operation-plus-close cycle": some calls of \<^verbatim>\<open>set_config_value\<close> and
  \<^verbatim>\<open>set_config_comment\<close>, stopped by the first exception, then \<^verbatim>\<open>close\<close>.
  \<open>setop_lines\<close> is what one such call does to the lines of the file it edits: nothing
  when the file has no lines (the early return of \<^verbatim>\<open>set_value\<close> and \<^verbatim>\<open>set_comment\<close>),
  and otherwise the lines of the text that the call writes.
\<close>

datatype setop = SetValue string pyval Filter | SetComment string string

fun do_setop :: "parser \<Rightarrow> setop \<Rightarrow> sys \<Rightarrow> (error + unit) \<times> sys" where
  "do_setop P (SetValue name val config_filter) s = set_config_value P name val config_filter s"
| "do_setop P (SetComment name val) s = set_config_comment name val s"

fun run_setops :: "parser \<Rightarrow> setop list \<Rightarrow> sys \<Rightarrow> (error + unit) \<times> sys" where
  "run_setops P [] s = (Inr (), s)"
| "run_setops P (x # xs) s = then_do (do_setop P x s) (\<lambda>_. run_setops P xs)"

definition set_close_cycle :: "parser \<Rightarrow> setop list \<Rightarrow> sys \<Rightarrow> (error + unit) \<times> sys" where
  "set_close_cycle P xs s = then_do (run_setops P xs s) (\<lambda>_. close)"

fun run_cycles :: "parser \<Rightarrow> setop list list \<Rightarrow> sys \<Rightarrow> (error + unit) \<times> sys" where
  "run_cycles P [] s = (Inr (), s)"
| "run_cycles P (xs # cycles) s = then_do (set_close_cycle P xs s) (\<lambda>_. run_cycles P cycles)"

fun setop_lines :: "parser \<Rightarrow> setop \<Rightarrow> line list \<Rightarrow> line list" where
  "setop_lines P (SetValue name val config_filter) lines =
     (if lines = [] then []
      else concat (map split_lines (parser_set_dump P lines name val config_filter)))"
| "setop_lines P (SetComment name val) lines =
     (if lines = [] then []
      else concat (map split_lines
             (comment_str_full name val #
              filter (\<lambda>line. \<not> str_in (comment_str_name name) line) lines)))"

definition example_dry_run_result :: "(error + unit) \<times> sys" where
  "example_dry_run_result =
     run_cycles example_parser [[SetComment ''a'' ''1''], [SetComment ''b'' ''2'']]
       (example_idle, set_dry_run example_world)"

definition example_two_line_value :: string where
  "example_two_line_value = ''1'' @ newline # ''gpu_mem=16''"

definition example_after_timeout :: sys where
  "example_after_timeout =
     snd (get_config_value example_parser ''hdmi_group'' Filter_ALL True False
            (example_idle, example_busy_world))"

definition example_after_timeout_write :: sys where
  "example_after_timeout_write = snd (set_config_comment ''a'' ''1'' example_after_timeout)"

definition example_unreadable_world :: world where
  "example_unreadable_world =
     example_world\<lparr>files := (files example_world)(boot_config_standard_path \<mapsto>
        File False [''dtparam=audio=on'', ''hdmi_group=2''])\<rparr>"

section \<open>Properties\<close>

subsection \<open>Basic facts\<close>

lemma split_lines_line: "newline \<notin> set s \<Longrightarrow> split_lines s = [s]"
  by (induction s) auto

lemma split_lines_break:
  "newline \<notin> set a \<Longrightarrow> split_lines (a @ newline # b) = a # split_lines b"
  by (induction a) (auto simp: split_lines_line)

lemma split_lines_not_empty: "split_lines s \<noteq> []"
  by (induction s) (auto split: list.splits)

lemma written_lines_same:
  "\<forall>l \<in> set ls. newline \<notin> set l \<Longrightarrow> concat (map split_lines ls) = ls"
  by (induction ls) (auto simp: split_lines_line)

declare split_lines.simps [simp del]

lemma then_do_Inl [simp]: "then_do (Inl e, s) f = (Inl e, s)"
  by (simp add: then_do_def)

lemma then_do_Inr [simp]: "then_do (Inr a, s) f = f a s"
  by (simp add: then_do_def)

lemma in_world_pair [simp]: "in_world c (r, w) = (r, (c, w))"
  by (simp add: in_world_def)

lemma startswith_iff: "startswith l m \<longleftrightarrow> (\<exists>ss. l = m @ ss)"
  by (induction l m rule: startswith.induct) auto

lemma str_in_iff: "str_in m l \<longleftrightarrow> (\<exists>ps ss. l = ps @ m @ ss)"
proof (induction l)
  case Nil
  then show ?case by auto
next
  case (Cons d l)
  show ?case
  proof
    assume "str_in m (d # l)"
    then consider "startswith (d # l) m" | "str_in m l" by auto
    then show "\<exists>ps ss. d # l = ps @ m @ ss"
    proof cases
      case 1
      then obtain ss where "d # l = m @ ss" by (auto simp: startswith_iff)
      then have "d # l = [] @ m @ ss" by simp
      then show ?thesis by blast
    next
      case 2
      with Cons obtain ps ss where "l = ps @ m @ ss" by auto
      then have "d # l = (d # ps) @ m @ ss" by simp
      then show ?thesis by blast
    qed
  next
    assume "\<exists>ps ss. d # l = ps @ m @ ss"
    then obtain ps ss where eq: "d # l = ps @ m @ ss" by auto
    show "str_in m (d # l)"
    proof (cases ps)
      case Nil
      with eq have "startswith (d # l) m" by (auto simp: startswith_iff)
      then show ?thesis by simp
    next
      case (Cons a ps')
      with eq have "l = ps' @ m @ ss" by simp
      with Cons.IH have "str_in m l" by auto
      then show ?thesis by simp
    qed
  qed
qed

lemma fold_markers:
  "fold (\<lambda>m acc. if Q m then insert m acc else acc) ms found = found \<union> {m \<in> set ms. Q m}"
  by (induction ms arbitrary: found) auto

lemma found_markers_eq:
  "found_markers lines found = found \<union> {m \<in> set must_contain. \<exists>l \<in> set lines. str_in m l}"
  by (induction lines arbitrary: found) (auto simp: fold_markers)

lemma check_corrupt_eq:
  "check_corrupt b w =
     Inr (case files w (bc_path b) of
            None \<Rightarrow> True
          | Some f \<Rightarrow>
              \<not> (readable f \<and>
                 (\<forall>m \<in> set must_contain. \<exists>l \<in> set (content f). str_in m l)))"
  by (auto simp: check_corrupt_def os_path_exists_def read_file_contents_as_lines_def
        found_markers_eq split: option.splits)

lemma raise_state_to_locked_timeout:
  "state c = Some 0 \<Longrightarrow> lockpath c \<in> locked_elsewhere w \<Longrightarrow>
   raise_state_to_locked (c, w) = (Inl LockTimeout, (c\<lparr>state := Some 1\<rparr>, w))"
  by (simp add: raise_state_to_locked_def open_locked_def)

lemma raise_state_to_locked_free:
  "state c = Some 0 \<Longrightarrow> lockpath c \<notin> locked_elsewhere w \<Longrightarrow> lockpath c \<notin> locks_held w \<Longrightarrow>
   raise_state_to_locked (c, w) =
     (Inr (), (c\<lparr>state := Some 1, lock := Some (lockpath c)\<rparr>,
               w\<lparr>locks_held := insert (lockpath c) (locks_held w)\<rparr>))"
  by (simp add: raise_state_to_locked_def open_locked_def)

lemma raise_state_to_locked_noop:
  "state c \<noteq> Some 0 \<Longrightarrow> raise_state_to_locked (c, w) = (Inr (), (c, w))"
  by (simp add: raise_state_to_locked_def)

lemma set_state_idle_0:
  "state c = Some 0 \<Longrightarrow> set_state_idle (c, w) = (Inr (), (c, w))"
  by (simp add: set_state_idle_def)

lemma set_state_idle_1:
  "state c = Some 1 \<Longrightarrow> lock c = Some h \<Longrightarrow>
   set_state_idle (c, w) =
     (Inr (), (c\<lparr>lock := None, state := Some 0\<rparr>, w\<lparr>locks_held := locks_held w - {h}\<rparr>))"
  by (simp add: set_state_idle_def lock_close_def)

lemma set_state_idle_2:
  "state c = Some 2 \<Longrightarrow> lock c = Some h \<Longrightarrow>
   set_state_idle (c, w) =
     (Inr (), (c\<lparr>temp_config := BootConfig_init (path c), temp_path := None,
                 lock := None, state := Some 0\<rparr>,
               w\<lparr>locks_held := locks_held w - {h}\<rparr>))"
  by (simp add: set_state_idle_def lock_close_def Let_def)

lemma example_idle_is_init:
  "ConfigTransaction_init boot_config_standard_path w = (Inr (), (example_idle, w))"
  by (simp add: ConfigTransaction_init_def set_state_idle_def example_idle_def
        boot_config_standard_path_def basename_def dirname_def path_join_def lock_dir_def)

lemma paths_differ [simp]:
  "boot_config_standard_path \<noteq> default_config_path"
  "default_config_path \<noteq> boot_config_standard_path"
  by (simp_all add: boot_config_standard_path_def default_config_path_def)

lemma example_writable_reached:
  "set_state_writable (example_idle, example_world) = (Inr (), (example_writable, example_staged_world))"
  by (simp add: set_state_writable_def raise_state_to_locked_def open_locked_def
        NamedTemporaryFile_def os_path_exists_def shutil_copy2_def example_idle_def
        example_world_def example_writable_def example_staged_world_def
        boot_config_standard_path_def default_config_path_def Let_def)

lemma lines_before_noobs_append:
  "noobs_line \<notin> set pre \<Longrightarrow> lines_before_noobs (pre @ noobs_line # post) = pre"
  by (induction pre) auto


lemma dropWhile_first:
  "\<exists>n \<in> set ns. \<not> Q n \<Longrightarrow> \<exists>n rest. dropWhile Q ns = n # rest \<and> \<not> Q n \<and> n \<in> set ns"
  by (induction ns) auto

lemma NamedTemporaryFile_ok:
  "dropWhile (\<lambda>n. files w n \<noteq> None) (tmp_names w) = n # rest \<Longrightarrow>
   NamedTemporaryFile w =
     (Inr n, w\<lparr>files := (files w)(n \<mapsto> File True []), tmp_names := rest,
               trace := trace w @ [MkTemp n]\<rparr>)"
  by (simp add: NamedTemporaryFile_def)

lemma set_state_writable_2:
  "state c = Some 2 \<Longrightarrow> set_state_writable (c, w) = (Inr (), (c\<lparr>state := Some 2\<rparr>, w))"
  by (simp add: set_state_writable_def)

lemma set_state_writable_1:
  assumes "state c = Some 1"
    and "dropWhile (\<lambda>n. files w n \<noteq> None) (tmp_names w) = n # rest"
    and "files w n = None" and "n \<noteq> path c"
    and "files w (if files w (path c) \<noteq> None then path c else default_config_path) = Some f"
    and "readable f"
  shows "set_state_writable (c, w) =
           (Inr (), (c\<lparr>temp_path := Some n, temp_config := BootConfig_init n, state := Some 2\<rparr>,
                     w\<lparr>files := (files w)(n \<mapsto> f), tmp_names := rest,
                       trace := trace w @ [MkTemp n,
                          Copy (if files w (path c) \<noteq> None then path c else default_config_path) n]\<rparr>))"
proof -
  have ne: "(if files w (path c) \<noteq> None then path c else default_config_path) \<noteq> n"
    using assms(3,5) by auto
  show ?thesis
    using assms ne
    by (auto simp: set_state_writable_def NamedTemporaryFile_ok os_path_exists_def
          shutil_copy2_def Let_def split: if_splits)
qed


lemma close_writable_dry:
  assumes "state c = Some 2" and "lock c = Some h" and "dry_run w"
  shows "close (c, w) =
           (Inr (), (c\<lparr>temp_config := BootConfig_init (path c), temp_path := None,
                       lock := None, state := Some 0\<rparr>,
                     w\<lparr>locks_held := locks_held w - {h}\<rparr>))"
  using assms
  by (simp add: close_def set_state_idle_2)






lemma check_corrupt_is_corrupt_now: "check_corrupt (temp_config c) w = Inr (corrupt_now c w)"
  using check_corrupt_eq [of "temp_config c" w]
  by (cases "files w (bc_path (temp_config c))") (simp_all add: corrupt_now_def must_contain_def)

lemma check_corrupt_config_idle:
  assumes "state c = Some 0" and "lockpath c \<notin> locked_elsewhere w" and "lockpath c \<notin> locks_held w"
  shows "check_corrupt_config (c, w) =
           check_corrupt_config (c\<lparr>state := Some 1, lock := Some (lockpath c)\<rparr>,
                                 w\<lparr>locks_held := insert (lockpath c) (locks_held w)\<rparr>)"
  using assms
  by (simp add: check_corrupt_config_def raise_state_to_locked_free raise_state_to_locked_noop)

lemma check_corrupt_config_sound:
  assumes "state c \<noteq> Some 0" and "\<not> corrupt_now c w"
  shows "check_corrupt_config (c, w) = (Inr False, (c, w))"
  using assms
  by (simp add: check_corrupt_config_def raise_state_to_locked_noop check_corrupt_is_corrupt_now)

lemma check_corrupt_config_writable:
  assumes "state c = Some 2" and "corrupt_now c w" and "temp_path c = Some t"
    and "files w default_config_path = Some (File True dflt)" and "t \<noteq> default_config_path"
  shows "check_corrupt_config (c, w) =
           (Inr True, (c\<lparr>state := Some 2\<rparr>,
                       w\<lparr>files := (files w)(t \<mapsto> File True dflt),
                         trace := trace w @ [Copy default_config_path t]\<rparr>))"
  using assms
  by (simp add: check_corrupt_config_def raise_state_to_locked_noop check_corrupt_is_corrupt_now
        copy_from_def set_state_writable_2 shutil_copy2_def)

lemma check_corrupt_config_locked:
  assumes "state c = Some 1" and "corrupt_now c w"
    and "dropWhile (\<lambda>n. files w n \<noteq> None) (tmp_names w) = n # rest"
    and "files w n = None" and "n \<noteq> path c"
    and "files w (if files w (path c) \<noteq> None then path c else default_config_path) = Some f"
    and "readable f"
    and "files w default_config_path = Some (File True dflt)"
  shows "check_corrupt_config (c, w) =
           (Inr True,
            (c\<lparr>temp_path := Some n, temp_config := BootConfig_init n, state := Some 2\<rparr>,
             w\<lparr>files := (files w)(n \<mapsto> File True dflt), tmp_names := rest,
               trace := trace w @ [MkTemp n,
                  Copy (if files w (path c) \<noteq> None then path c else default_config_path) n,
                  Copy default_config_path n]\<rparr>))"
proof -
  have nd: "n \<noteq> default_config_path" using assms(4,8) by auto
  show ?thesis
    using assms(1,2,8) nd
    by (simp add: check_corrupt_config_def raise_state_to_locked_noop check_corrupt_is_corrupt_now
        copy_from_def set_state_writable_1 [OF assms(1,3,4,5,6,7)] shutil_copy2_def)
qed


lemma check_corrupt_config_locked_result:
  assumes "state c = Some 1" and "corrupt_now c w"
    and "\<exists>n \<in> set (tmp_names w). files w n = None" and "path c \<notin> set (tmp_names w)"
    and "\<forall>f. files w (path c) = Some f \<longrightarrow> readable f"
    and "files w default_config_path = Some (File True dflt)"
  shows "case check_corrupt_config (c, w) of (r, c', w') \<Rightarrow>
           r = Inr True \<and> files w' (path c) = files w (path c) \<and> state c' = Some 2 \<and>
           (\<exists>t. temp_path c' = Some t \<and> bc_path (temp_config c') = t \<and>
                files w' t = Some (File True dflt))"
proof -
  from assms(3) obtain n rest where
    dw: "dropWhile (\<lambda>n. files w n \<noteq> None) (tmp_names w) = n # rest"
    and fn: "files w n = None" and mem: "n \<in> set (tmp_names w)"
    using dropWhile_first [of "tmp_names w" "\<lambda>n. files w n \<noteq> None"] by auto
  have ne: "n \<noteq> path c" using mem assms(4) by auto
  obtain f where src: "files w (if files w (path c) \<noteq> None then path c else default_config_path) = Some f"
    and rd: "readable f"
    using assms(5,6) by (cases "files w (path c)") auto
  show ?thesis
    unfolding check_corrupt_config_locked [OF assms(1,2) dw fn ne src rd assms(6)]
    using ne by (simp add: BootConfig_init_def)
qed

lemma state_update_same: "state c = Some k \<Longrightarrow> c\<lparr>state := Some k\<rparr> = c"
  by (cases c) simp

lemma do_setop_writable:
  assumes "state c = Some 2" and "bc_path (temp_config c) = t" and "files w t = Some (File True ls)"
  shows "do_setop P x (c, w) =
           (Inr (), (c, w\<lparr>files := (files w)(t \<mapsto> File True (setop_lines P x ls)),
                         trace := trace w @ (if ls = [] then [] else [OpenW t])\<rparr>))"
proof -
  have idem: "(files w)(t \<mapsto> File True []) = files w" if "ls = []"
    using that assms(3) by (simp add: fun_upd_idem)
  show ?thesis
    using assms idem
    by (cases x)
      (simp_all add: set_config_value_def set_config_comment_def set_state_writable_2
        state_update_same set_value_def set_comment_def read_file_contents_as_lines_def
        write_lines_def)
qed

lemma run_setops_writable:
  assumes "state c = Some 2" and "bc_path (temp_config c) = t" and "files w t = Some (File True ls)"
  shows "\<exists>tr. run_setops P xs (c, w) =
           (Inr (), (c, w\<lparr>files := (files w)(t \<mapsto> File True (foldl (\<lambda>l x. setop_lines P x l) ls xs)),
                         trace := tr\<rparr>))"
  using assms(3)
proof (induction xs arbitrary: w ls)
  case Nil
  then have "w = w\<lparr>files := (files w)(t \<mapsto> File True ls), trace := trace w\<rparr>"
    by (simp add: fun_upd_idem)
  then have "run_setops P [] (c, w) =
      (Inr (), (c, w\<lparr>files := (files w)(t \<mapsto> File True ls), trace := trace w\<rparr>))"
    by simp
  then show ?case
    by (metis foldl_Nil)
next
  case (Cons x xs)
  let ?w1 = "w\<lparr>files := (files w)(t \<mapsto> File True (setop_lines P x ls)),
                 trace := trace w @ (if ls = [] then [] else [OpenW t])\<rparr>"
  have step: "do_setop P x (c, w) = (Inr (), (c, ?w1))"
    by (rule do_setop_writable [OF assms(1,2) Cons.prems])
  have "files ?w1 t = Some (File True (setop_lines P x ls))" by simp
  from Cons.IH [OF this] obtain tr where
    "run_setops P xs (c, ?w1) =
       (Inr (), (c, ?w1\<lparr>files := (files ?w1)(t \<mapsto>
           File True (foldl (\<lambda>l x. setop_lines P x l) (setop_lines P x ls) xs)), trace := tr\<rparr>))"
    by blast
  then have "run_setops P (x # xs) (c, w) =
       (Inr (), (c, w\<lparr>files := (files w)(t \<mapsto>
           File True (foldl (\<lambda>l x. setop_lines P x l) ls (x # xs))), trace := tr\<rparr>))"
    using step by simp
  then show ?case by blast
qed


lemma set_state_writable_0:
  assumes "state c = Some 0" and "lockpath c \<notin> locked_elsewhere w" and "lockpath c \<notin> locks_held w"
  shows "set_state_writable (c, w) =
           set_state_writable (c\<lparr>state := Some 1, lock := Some (lockpath c)\<rparr>,
                               w\<lparr>locks_held := insert (lockpath c) (locks_held w)\<rparr>)"
  using assms
  by (simp add: set_state_writable_def raise_state_to_locked_free)

lemma do_setop_after_writable:
  assumes "set_state_writable s = (Inr (), (c2, w2))" and "state c2 = Some 2"
  shows "do_setop P x s = do_setop P x (c2, w2)"
  using assms
  by (cases x)
    (simp_all add: set_config_value_def set_config_comment_def set_state_writable_2
      state_update_same)

lemma run_setops_after_writable:
  assumes "xs \<noteq> []" and "set_state_writable s = (Inr (), (c2, w2))" and "state c2 = Some 2"
  shows "run_setops P xs s = run_setops P xs (c2, w2)"
  using assms by (cases xs) (simp_all add: do_setop_after_writable [of s c2 w2])

lemma idle_again:
  assumes "state c = Some 0" and "lock c = None" and "temp_path c = None"
    and "temp_config c = BootConfig_init (path c)"
  shows "c\<lparr>state := Some 1, lock := Some h, temp_path := Some n, temp_config := BootConfig_init n,
            state := Some 2, temp_config := BootConfig_init (path c), temp_path := None,
            lock := None, state := Some 0\<rparr> = c"
  using assms by (cases c) simp

lemma set_close_cycle_dry:
  assumes "state c = Some 0" and "lock c = None" and "temp_path c = None"
    and "temp_config c = BootConfig_init (path c)"
    and "lockpath c \<notin> locked_elsewhere w" and "lockpath c \<notin> locks_held w"
    and "dry_run w" and "tmp_names w = n # rest" and "files w n = None" and "n \<noteq> path c"
    and "files w (if files w (path c) \<noteq> None then path c else default_config_path)
           = Some (File True seed)"
    and "xs \<noteq> []"
  shows "\<exists>tr. set_close_cycle P xs (c, w) =
           (Inr (), (c, w\<lparr>files := (files w)(n \<mapsto> File True (foldl (\<lambda>l x. setop_lines P x l) seed xs)),
                         tmp_names := rest, trace := tr\<rparr>))"
proof -
  let ?c1 = "c\<lparr>state := Some 1, lock := Some (lockpath c)\<rparr>"
  let ?w1 = "w\<lparr>locks_held := insert (lockpath c) (locks_held w)\<rparr>"
  define src where "src = (if files w (path c) \<noteq> None then path c else default_config_path)"
  let ?c2 = "?c1\<lparr>temp_path := Some n, temp_config := BootConfig_init n, state := Some 2\<rparr>"
  let ?w2 = "?w1\<lparr>files := (files ?w1)(n \<mapsto> File True seed), tmp_names := rest,
                  trace := trace ?w1 @ [MkTemp n, Copy src n]\<rparr>"
  have dw: "dropWhile (\<lambda>n. files ?w1 n \<noteq> None) (tmp_names ?w1) = n # rest"
    using assms(8,9) by simp
  have srceq: "(if files ?w1 (path ?c1) \<noteq> None then path ?c1 else default_config_path) = src"
    by (simp add: src_def)
  have srcf: "files ?w1 src = Some (File True seed)"
    using assms(11) by (simp add: src_def)
  have sw1: "set_state_writable (?c1, ?w1) = (Inr (), (?c2, ?w2))"
    using set_state_writable_1 [of ?c1 ?w1 n rest "File True seed", OF _ dw, unfolded srceq]
      assms(9,10) srcf
    by simp
  have sw: "set_state_writable (c, w) = (Inr (), (?c2, ?w2))"
    using set_state_writable_0 [OF assms(1,5,6)] sw1 by simp
  have ro: "run_setops P xs (c, w) = run_setops P xs (?c2, ?w2)"
    by (rule run_setops_after_writable [OF assms(12) sw]) simp
  obtain tr where rs: "run_setops P xs (?c2, ?w2) =
      (Inr (), (?c2, ?w2\<lparr>files := (files ?w2)(n \<mapsto>
          File True (foldl (\<lambda>l x. setop_lines P x l) seed xs)), trace := tr\<rparr>))"
    using run_setops_writable [of ?c2 n ?w2 seed P xs] by (auto simp: BootConfig_init_def)
  let ?w3 = "?w2\<lparr>files := (files ?w2)(n \<mapsto>
          File True (foldl (\<lambda>l x. setop_lines P x l) seed xs)), trace := tr\<rparr>"
  have cl: "close (?c2, ?w3) =
      (Inr (), (?c2\<lparr>temp_config := BootConfig_init (path ?c2), temp_path := None,
                    lock := None, state := Some 0\<rparr>,
                ?w3\<lparr>locks_held := locks_held ?w3 - {lockpath c}\<rparr>))"
    using close_writable_dry [of ?c2 "lockpath c" ?w3] assms(7) by simp
  have ceq: "?c2\<lparr>temp_config := BootConfig_init (path ?c2), temp_path := None,
                    lock := None, state := Some 0\<rparr> = c"
    using idle_again [OF assms(1-4), of "lockpath c" n] by simp
  have weq: "?w3\<lparr>locks_held := locks_held ?w3 - {lockpath c}\<rparr> =
      w\<lparr>files := (files w)(n \<mapsto> File True (foldl (\<lambda>l x. setop_lines P x l) seed xs)),
        tmp_names := rest, trace := tr\<rparr>"
    using assms(6) by simp
  have "set_close_cycle P xs (c, w) =
      (Inr (), (c, w\<lparr>files := (files w)(n \<mapsto> File True (foldl (\<lambda>l x. setop_lines P x l) seed xs)),
                    tmp_names := rest, trace := tr\<rparr>))"
    unfolding set_close_cycle_def ro rs using cl ceq weq by simp
  then show ?thesis by blast
qed


lemma all_less_two: "(\<forall>i < (2::nat). Q i) \<longleftrightarrow> Q 0 \<and> Q 1"
  by (auto simp: less_2_cases_iff)

lemma run_cycles_dry:
  assumes "state c = Some 0" and "lock c = None" and "temp_path c = None"
    and "temp_config c = BootConfig_init (path c)"
    and "lockpath c \<notin> locked_elsewhere w" and "lockpath c \<notin> locks_held w"
    and "dry_run w" and "tmp_names w = ns" and "distinct ns"
    and "\<forall>n \<in> set ns. files w n = None" and "path c \<notin> set ns"
    and "files w (if files w (path c) \<noteq> None then path c else default_config_path)
           = Some (File True seed)"
    and "length cycles \<le> length ns" and "\<forall>xs \<in> set cycles. xs \<noteq> []"
  shows "\<exists>w'. run_cycles P cycles (c, w) = (Inr (), (c, w')) \<and>
           (\<forall>i < length cycles.
              files w' (ns ! i) = Some (File True (foldl (\<lambda>l x. setop_lines P x l) seed (cycles ! i)))) \<and>
           (\<forall>p. p \<notin> set (take (length cycles) ns) \<longrightarrow> files w' p = files w p)"
  using assms(5-14)
proof (induction cycles arbitrary: w ns)
  case Nil
  then show ?case by simp
next
  case (Cons xs cycles)
  from Cons.prems(9) obtain n ns' where ns: "ns = n # ns'"
    by (cases ns) auto
  define src where "src = (if files w (path c) \<noteq> None then path c else default_config_path)"
  have srcf: "files w src = Some (File True seed)"
    using Cons.prems(8) by (simp add: src_def)
  have fn: "files w n = None" and nep: "n \<noteq> path c" and nes: "n \<noteq> src"
    using Cons.prems(6,7) ns srcf by auto
  have xs: "xs \<noteq> []" using Cons.prems(10) by simp
  let ?r0 = "foldl (\<lambda>l x. setop_lines P x l) seed xs"
  from set_close_cycle_dry [OF assms(1-4) Cons.prems(1,2,3) _ fn nep Cons.prems(8) xs, of ns' P]
    Cons.prems(4) ns
  obtain tr where cyc: "set_close_cycle P xs (c, w) =
      (Inr (), (c, w\<lparr>files := (files w)(n \<mapsto> File True ?r0), tmp_names := ns', trace := tr\<rparr>))"
    by auto
  let ?w1 = "w\<lparr>files := (files w)(n \<mapsto> File True ?r0), tmp_names := ns', trace := tr\<rparr>"
  have p1: "lockpath c \<notin> locked_elsewhere ?w1" "lockpath c \<notin> locks_held ?w1" "dry_run ?w1"
      "tmp_names ?w1 = ns'" "distinct ns'"
    using Cons.prems(1,2,3,5) ns by simp_all
  have p6: "\<forall>m \<in> set ns'. files ?w1 m = None"
    using Cons.prems(5,6) ns by auto
  have p7: "path c \<notin> set ns'"
    using Cons.prems(7) ns by simp
  have p8: "files ?w1 (if files ?w1 (path c) \<noteq> None then path c else default_config_path)
              = Some (File True seed)"
    using srcf nep nes by (simp add: src_def)
  have p9: "length cycles \<le> length ns'" and p10: "\<forall>xs \<in> set cycles. xs \<noteq> []"
    using Cons.prems(9,10) ns by simp_all
  from Cons.IH [OF p1 p6 p7 p8 p9 p10] obtain w' where
    run: "run_cycles P cycles (c, ?w1) = (Inr (), (c, w'))"
    and staged: "\<forall>i < length cycles.
        files w' (ns' ! i) = Some (File True (foldl (\<lambda>l x. setop_lines P x l) seed (cycles ! i)))"
    and frame: "\<forall>p. p \<notin> set (take (length cycles) ns') \<longrightarrow> files w' p = files ?w1 p"
    by blast
  have r: "run_cycles P (xs # cycles) (c, w) = (Inr (), (c, w'))"
    using cyc run by simp
  have n_out: "n \<notin> set (take (length cycles) ns')"
    using Cons.prems(5) ns by (auto dest: in_set_takeD)
  have first: "files w' n = Some (File True ?r0)"
    using frame n_out by simp
  have s: "\<forall>i < length (xs # cycles).
        files w' (ns ! i) = Some (File True (foldl (\<lambda>l x. setop_lines P x l) seed ((xs # cycles) ! i)))"
  proof (intro allI impI)
    fix i assume "i < length (xs # cycles)"
    then show "files w' (ns ! i) =
        Some (File True (foldl (\<lambda>l x. setop_lines P x l) seed ((xs # cycles) ! i)))"
      using first staged ns by (cases i) simp_all
  qed
  have f: "\<forall>p. p \<notin> set (take (length (xs # cycles)) ns) \<longrightarrow> files w' p = files w p"
    using frame ns by simp
  from r s f show ?case by blast
qed

text \<open>
  Outside the hypotheses of the recovery theorem below: a target that exists and cannot be
  read is reported corrupt by \<^verbatim>\<open>check_corrupt\<close>, but staging starts by copying that very
  file, and the copy's error is what the caller gets.
\<close>

lemma check_corrupt_config_unreadable_target:
  assumes "state c = Some 1" and "bc_path (temp_config c) = path c"
    and "files w (path c) = Some (File False ls)"
    and "dropWhile (\<lambda>n. files w n \<noteq> None) (tmp_names w) = n # rest" and "files w n = None"
  shows "fst (check_corrupt_config (c, w)) = Inl IOError"
proof -
  have cn: "corrupt_now c w"
    using assms(2,3) by (simp add: corrupt_now_def)
  have ne: "n \<noteq> path c" using assms(3,5) by auto
  show ?thesis
    using assms cn ne
    by (simp add: check_corrupt_config_def raise_state_to_locked_noop check_corrupt_is_corrupt_now
        copy_from_def set_state_writable_def NamedTemporaryFile_ok os_path_exists_def
        shutil_copy2_def Let_def)
qed

lemma example_after_timeout_eq:
  "get_config_value example_parser ''hdmi_group'' Filter_ALL True False
     (example_idle, example_busy_world) =
     (Inl LockTimeout, (example_idle\<lparr>state := Some 1\<rparr>, example_busy_world))"
  by (simp add: get_config_value_def raise_state_to_locked_def open_locked_def
        example_busy_world_def example_idle_def)

lemma example_after_timeout_state:
  "example_after_timeout = (example_idle\<lparr>state := Some 1\<rparr>, example_busy_world)"
  by (simp add: example_after_timeout_def example_after_timeout_eq)

lemma example_after_timeout_write_eq:
  "set_config_comment ''a'' ''1'' example_after_timeout =
     (Inr (),
      (example_idle\<lparr>state := Some 2, temp_path := Some ''/boot/config_tmp_a'',
                    temp_config := BootConfig_init ''/boot/config_tmp_a''\<rparr>,
       example_busy_world\<lparr>files := (files example_busy_world)(''/boot/config_tmp_a'' \<mapsto>
            File True [''### a: 1'', ''dtparam=audio=on'', ''hdmi_group=2'']),
          tmp_names := [''/boot/config_tmp_b''],
          trace := [MkTemp ''/boot/config_tmp_a'',
                    Copy boot_config_standard_path ''/boot/config_tmp_a'',
                    OpenW ''/boot/config_tmp_a'']\<rparr>))"
  unfolding example_after_timeout_state
  by (simp add: set_config_comment_def
        set_state_writable_def NamedTemporaryFile_def os_path_exists_def shutil_copy2_def
        set_comment_def read_file_contents_as_lines_def write_lines_def split_lines_line
        newline_def comment_str_full_def comment_str_name_def BootConfig_init_def
        example_busy_world_def example_world_def example_idle_def
        boot_config_standard_path_def default_config_path_def Let_def)

lemma example_after_timeout_write_state:
  "example_after_timeout_write =
      (example_idle\<lparr>state := Some 2, temp_path := Some ''/boot/config_tmp_a'',
                    temp_config := BootConfig_init ''/boot/config_tmp_a''\<rparr>,
       example_busy_world\<lparr>files := (files example_busy_world)(''/boot/config_tmp_a'' \<mapsto>
            File True [''### a: 1'', ''dtparam=audio=on'', ''hdmi_group=2'']),
          tmp_names := [''/boot/config_tmp_b''],
          trace := [MkTemp ''/boot/config_tmp_a'',
                    Copy boot_config_standard_path ''/boot/config_tmp_a'',
                    OpenW ''/boot/config_tmp_a'']\<rparr>)"
  by (simp add: example_after_timeout_write_def example_after_timeout_write_eq)

lemma setop_lines_empty: "setop_lines P x [] = []"
  by (cases x) simp_all

lemma foldl_setop_lines_empty: "foldl (\<lambda>l x. setop_lines P x l) [] xs = []"
  by (induction xs) (simp_all add: setop_lines_empty)

subsection \<open>The claims\<close>

text \<open>
  Claim C1: no operation other than \<^verbatim>\<open>close\<close> writes the Target Path. The code breaks
  this in \<^verbatim>\<open>remove_noobs_defaults\<close>: on a target without the sentinel line, called on an
  idle coordinator, the method answers \<open>False\<close>, stays in state 1 with no staged copy,
  and has opened the target itself for writing.
\<close>

theorem remove_noobs_defaults_writes_target:
  "fst (remove_noobs_defaults (example_idle, example_world)) = Inr False \<and>
   state (fst (snd (remove_noobs_defaults (example_idle, example_world)))) = Some 1 \<and>
   temp_path (fst (snd (remove_noobs_defaults (example_idle, example_world)))) = None \<and>
   trace (snd (snd (remove_noobs_defaults (example_idle, example_world)))) =
     [OpenW boot_config_standard_path] \<and>
   path example_idle = boot_config_standard_path \<and> trace example_world = []"
  by (simp add: remove_noobs_defaults_def raise_state_to_locked_def open_locked_def
        noobs_defaults_present_def remove_noobs_defaults_file_def
        read_file_contents_as_lines_def write_lines_def split_lines_line newline_def noobs_line_def
        example_idle_def example_world_def BootConfig_init_def
        boot_config_standard_path_def default_config_path_def)

text \<open>
  Claim C2: a lock timeout in \<^verbatim>\<open>raise_state_to_locked\<close> leaves the coordinator idle.
  The code assigns the state before it asks for the lock: when another process holds the
  lock, the call raises, no lock is held and no file is touched, but the coordinator is
  left in state 1, which \<^verbatim>\<open>valid_state\<close> rejects.
\<close>

theorem raise_state_to_locked_timeout_state:
  "raise_state_to_locked (example_idle, example_busy_world) =
     (Inl LockTimeout, (example_idle\<lparr>state := Some 1\<rparr>, example_busy_world)) \<and>
   state (example_idle\<lparr>state := Some 1\<rparr>) = Some 1 \<and>
   lock (example_idle\<lparr>state := Some 1\<rparr>) = None \<and>
   \<not> valid_state (example_idle\<lparr>state := Some 1\<rparr>)"
  by (simp add: raise_state_to_locked_def open_locked_def example_busy_world_def
        example_idle_def valid_state_def)

text \<open>
  On a coordinator that is idle or locked and that \<^verbatim>\<open>valid_state\<close> accepts, \<^verbatim>\<open>close\<close>
  does not raise, leaves every file and the trace of file operations as they were, and
  ends idle with the lock released.
\<close>

theorem close_without_writes:
  assumes "valid_state c" and "state c = Some 0 \<or> state c = Some 1"
  shows "case close (c, w) of (r, c', w') \<Rightarrow>
           r = Inr () \<and> files w' = files w \<and> trace w' = trace w \<and>
           state c' = Some 0 \<and> lock c' = None \<and> valid_state c' \<and>
           (\<forall>h. lock c = Some h \<longrightarrow> h \<notin> locks_held w')"
  using assms
  by (auto simp: close_def valid_state_def set_state_idle_0 set_state_idle_1)

theorem close_without_writes_witness:
  "valid_state example_idle \<and> (state example_idle = Some 0 \<or> state example_idle = Some 1) \<and>
   (case close (example_idle, example_world) of (r, c', w') \<Rightarrow>
      r = Inr () \<and> files w' = files example_world \<and> state c' = Some 0 \<and> lock c' = None)"
proof -
  have h1: "valid_state example_idle"
    by (simp add: valid_state_def example_idle_def BootConfig_init_def)
  have h2: "state example_idle = Some 0 \<or> state example_idle = Some 1"
    by (simp add: example_idle_def)
  from h1 h2 close_without_writes [OF h1 h2, of example_world] show ?thesis
    by (auto split: prod.splits)
qed

text \<open>
  Claim C3: \<^verbatim>\<open>close\<close> after a transaction without writes does not raise, leaves the
  target as it was and returns the coordinator to idle. The code breaks this after a read
  whose lock request timed out: that read leaves state 1 without a lock, no write has
  happened, and \<^verbatim>\<open>close\<close> then calls \<^verbatim>\<open>close\<close> on the missing lock, raises and leaves
  the coordinator in state 1. The files are as they were.
\<close>

theorem close_after_timed_out_read:
  "fst (get_config_value example_parser ''hdmi_group'' Filter_ALL True False
          (example_idle, example_busy_world)) = Inl LockTimeout \<and>
   fst (close example_after_timeout) = Inl AttributeError \<and>
   state (fst (snd (close example_after_timeout))) = Some 1 \<and>
   lock (fst (snd (close example_after_timeout))) = None \<and>
   files (snd (snd (close example_after_timeout))) = files example_busy_world"
  unfolding example_after_timeout_state example_after_timeout_eq
  by (simp add: close_def set_state_idle_def lock_close_def example_idle_def)

text \<open>
  Claim C6: \<^verbatim>\<open>check_corrupt\<close> never raises. It answers \<open>True\<close> when the file is absent
  or cannot be read, and \<open>False\<close> exactly when the file can be read and every required
  marker, of which there is one, \<open>dtparam\<close>, occurs in some line (\<open>str_in\<close> is
  "occurs in", see \<open>str_in_iff\<close>).
\<close>

theorem check_corrupt_total:
  "check_corrupt b w =
     Inr (case files w (bc_path b) of
            None \<Rightarrow> True
          | Some f \<Rightarrow>
              \<not> (readable f \<and>
                 (\<forall>m \<in> set must_contain. \<exists>l \<in> set (content f). str_in m l))) \<and>
   must_contain = [''dtparam'']"
  using check_corrupt_eq [of b w] must_contain_def by blast

theorem check_corrupt_total_witness:
  "check_corrupt (BootConfig_init boot_config_standard_path) example_world = Inr False"
  using check_corrupt_total [of "BootConfig_init boot_config_standard_path" example_world]
  by (simp add: BootConfig_init_def example_world_def must_contain_def)

text \<open>
  On a coordinator that \<^verbatim>\<open>valid_state\<close> accepts, \<^verbatim>\<open>abort\<close> from the writable state
  deletes the staged copy, leaves the target as it was, points the accessor back at the
  target and ends idle with the lock released; \<^verbatim>\<open>abort\<close> from the idle or locked state,
  where no staged path exists, raises and changes nothing.
\<close>

theorem abort_behaviour:
  assumes "valid_state c"
  shows "(state c = Some 2 \<and> temp_path c = Some t \<and> files w t \<noteq> None \<and> t \<noteq> path c \<longrightarrow>
            (case abort (c, w) of (r, c', w') \<Rightarrow>
               r = Inr () \<and>
               files w' = (files w)(t := None) \<and> files w' (path c) = files w (path c) \<and>
               state c' = Some 0 \<and> lock c' = None \<and> temp_path c' = None \<and>
               temp_config c' = BootConfig_init (path c) \<and> valid_state c' \<and>
               (\<forall>h. lock c = Some h \<longrightarrow> h \<notin> locks_held w'))) \<and>
         (state c = Some 0 \<or> state c = Some 1 \<longrightarrow> abort (c, w) = (Inl TypeError, (c, w)))"
  using assms
  by (auto simp: abort_def valid_state_def os_remove_def set_state_idle_2 BootConfig_init_def
        split: if_splits)

theorem abort_behaviour_witness:
  "valid_state example_writable \<and> state example_writable = Some 2 \<and>
   temp_path example_writable = Some ''/boot/config_tmp_a'' \<and>
   files example_staged_world ''/boot/config_tmp_a'' \<noteq> None \<and>
   ''/boot/config_tmp_a'' \<noteq> path example_writable \<and>
   (case abort (example_writable, example_staged_world) of (r, c', w') \<Rightarrow>
      r = Inr () \<and> files w' ''/boot/config_tmp_a'' = None \<and>
      files w' (path example_writable) = files example_staged_world (path example_writable) \<and>
      state c' = Some 0 \<and> lock c' = None) \<and>
   valid_state example_idle \<and>
   abort (example_idle, example_world) = (Inl TypeError, (example_idle, example_world))"
proof -
  have h1: "valid_state example_writable"
    by (simp add: valid_state_def example_writable_def example_idle_def BootConfig_init_def)
  have h2: "state example_writable = Some 2 \<and>
      temp_path example_writable = Some ''/boot/config_tmp_a'' \<and>
      files example_staged_world ''/boot/config_tmp_a'' \<noteq> None \<and>
      ''/boot/config_tmp_a'' \<noteq> path example_writable"
    by (simp add: example_writable_def example_idle_def example_staged_world_def
          boot_config_standard_path_def)
  have h3: "valid_state example_idle"
    by (simp add: valid_state_def example_idle_def BootConfig_init_def)
  have h4: "state example_idle = Some 0"
    by (simp add: example_idle_def)
  from h1 h2 h3 h4
    abort_behaviour [OF h1, of "''/boot/config_tmp_a''" example_staged_world]
    abort_behaviour [OF h3, of "''/boot/config_tmp_a''" example_world]
  show ?thesis
    by (auto split: prod.splits)
qed

text \<open>
  Claim C8: \<^verbatim>\<open>abort\<close> from the writable state deletes the staged copy, leaves the
  target as it was and returns the coordinator to idle with the lock released. The code
  breaks this when the transaction began with a read whose lock request timed out: the
  write that follows stages a copy and reaches state 2 without a lock, and \<^verbatim>\<open>abort\<close>
  then deletes the staged copy, raises on the missing lock and leaves the coordinator in
  state 1. The target is as it was.
\<close>

theorem abort_after_timed_out_read_and_write:
  "fst (set_config_comment ''a'' ''1'' example_after_timeout) = Inr () \<and>
   state (fst example_after_timeout_write) = Some 2 \<and>
   lock (fst example_after_timeout_write) = None \<and>
   temp_path (fst example_after_timeout_write) = Some ''/boot/config_tmp_a'' \<and>
   files (snd example_after_timeout_write) ''/boot/config_tmp_a'' =
     Some (File True [''### a: 1'', ''dtparam=audio=on'', ''hdmi_group=2'']) \<and>
   fst (abort example_after_timeout_write) = Inl AttributeError \<and>
   state (fst (snd (abort example_after_timeout_write))) = Some 1 \<and>
   files (snd (snd (abort example_after_timeout_write))) ''/boot/config_tmp_a'' = None \<and>
   files (snd (snd (abort example_after_timeout_write))) boot_config_standard_path =
     files example_busy_world boot_config_standard_path"
  unfolding example_after_timeout_write_state example_after_timeout_write_eq
  by (simp add: abort_def os_remove_def set_state_idle_def lock_close_def Let_def
        example_idle_def boot_config_standard_path_def)

text \<open>
  Claim C9: \<^verbatim>\<open>get_value\<close> on a file whose read yields no lines returns the number 0,
  whatever the name, filter, fallback and ignore\_comments arguments are.
\<close>

theorem get_value_no_lines_is_zero:
  "read_file_contents_as_lines w (bc_path b) = Inr [] \<Longrightarrow>
   get_value P b name config_filter fallback ignore_comments w = Inr (PyInt 0)"
  by (simp add: get_value_def)

theorem get_value_no_lines_is_zero_witness:
  "read_file_contents_as_lines example_world (bc_path (BootConfig_init ''/boot/missing.txt'')) = Inr [] \<and>
   get_value example_parser (BootConfig_init ''/boot/missing.txt'') ''hdmi_group'' Filter_ALL True False
     example_world = Inr (PyInt 0)"
proof -
  have h: "read_file_contents_as_lines example_world (bc_path (BootConfig_init ''/boot/missing.txt''))
             = Inr []"
    by (simp add: read_file_contents_as_lines_def BootConfig_init_def example_world_def
          boot_config_standard_path_def default_config_path_def)
  from h get_value_no_lines_is_zero [OF h] show ?thesis by simp
qed

text \<open>
  Claim C10, as amended: on a readable file with at least one line, and for a name and a
  value without a line break, \<^verbatim>\<open>set_comment\<close> writes the new annotation as the first
  line and drops every old line in which \<open>### name\<close> occurs anywhere, so also
  annotations of longer names and body lines that contain it.
\<close>

theorem set_comment_rewrites:
  assumes "files w (bc_path b) = Some (File True lines)" and "lines \<noteq> []"
    and "newline \<notin> set name" and "newline \<notin> set val"
    and "\<forall>l \<in> set lines. newline \<notin> set l"
  shows "set_comment b name val w =
           (Inr (), w\<lparr>files := (files w)(bc_path b \<mapsto>
                         File True ((''### '' @ name @ '': '' @ val) #
                           filter (\<lambda>l. \<not> str_in (''### '' @ name) l) lines)),
                      trace := trace w @ [OpenW (bc_path b)]\<rparr>)"
proof -
  have "newline \<notin> set (''### '' @ name @ '': '' @ val)"
    using assms(3,4) by (simp add: newline_def)
  then have "split_lines (''### '' @ name @ '': '' @ val) = [''### '' @ name @ '': '' @ val]"
    by (rule split_lines_line)
  moreover have "concat (map split_lines (filter (\<lambda>l. \<not> str_in (''### '' @ name) l) lines)) =
      filter (\<lambda>l. \<not> str_in (''### '' @ name) l) lines"
    using assms(5) by (intro written_lines_same) simp
  ultimately show ?thesis
    using assms(1,2)
    by (simp add: set_comment_def read_file_contents_as_lines_def write_lines_def
          comment_str_full_def comment_str_name_def)
qed

theorem set_comment_rewrites_witness:
  "files example_comment_world (bc_path (BootConfig_init boot_config_standard_path)) =
     Some (File True [''### foobar: v'', ''gpu_mem=64 ### foo'', ''### foo: old'', ''dtparam=audio=on'']) \<and>
   newline \<notin> set ''foo'' \<and> newline \<notin> set ''new'' \<and>
   set_comment (BootConfig_init boot_config_standard_path) ''foo'' ''new'' example_comment_world =
     (Inr (), example_comment_world\<lparr>files := (files example_comment_world)(boot_config_standard_path \<mapsto>
                 File True [''### foo: new'', ''dtparam=audio=on'']),
               trace := [OpenW boot_config_standard_path]\<rparr>)"
proof -
  have h1: "files example_comment_world (bc_path (BootConfig_init boot_config_standard_path)) =
     Some (File True [''### foobar: v'', ''gpu_mem=64 ### foo'', ''### foo: old'', ''dtparam=audio=on''])"
    by (simp add: example_comment_world_def BootConfig_init_def)
  have h2: "[''### foobar: v'', ''gpu_mem=64 ### foo'', ''### foo: old'', ''dtparam=audio=on''] \<noteq> []"
    by simp
  have h3: "newline \<notin> set ''foo''" and h4: "newline \<notin> set ''new''"
    by (simp_all add: newline_def)
  have h5: "\<forall>l \<in> set [''### foobar: v'', ''gpu_mem=64 ### foo'', ''### foo: old'', ''dtparam=audio=on''].
      newline \<notin> set l"
    by (simp add: newline_def)
  from h1 h3 h4 set_comment_rewrites [OF h1 h2 h3 h4 h5] show ?thesis
    by (simp add: BootConfig_init_def example_comment_world_def example_world_def)
qed

text \<open>
  The claim as it was stated speaks of every name and value. A value that holds a line
  break is written as two lines: the first line of the file is then not the annotation
  \<open>### name: value\<close>, and \<^verbatim>\<open>get_comment\<close> does not find the comment that was just set.
\<close>

theorem set_comment_line_break_counterexample:
  "files (snd (set_comment (BootConfig_init boot_config_standard_path) ''foo''
                 example_two_line_value example_world)) boot_config_standard_path =
     Some (File True [''### foo: 1'', ''gpu_mem=16'', ''dtparam=audio=on'', ''hdmi_group=2'']) \<and>
   comment_str_full ''foo'' example_two_line_value \<noteq> ''### foo: 1'' \<and>
   get_comment (BootConfig_init boot_config_standard_path) ''foo'' example_two_line_value
     (snd (set_comment (BootConfig_init boot_config_standard_path) ''foo''
             example_two_line_value example_world)) = Inr False"
proof -
  have n1: "newline \<notin> set ''### foo: 1''" and n2: "newline \<notin> set ''gpu_mem=16''"
    by (simp_all add: newline_def)
  have sp: "split_lines (''### foo: 1'' @ newline # ''gpu_mem=16'') = [''### foo: 1'', ''gpu_mem=16'']"
    using split_lines_break [OF n1, of "''gpu_mem=16''"] split_lines_line [OF n2] by simp
  have full: "comment_str_full ''foo'' example_two_line_value = ''### foo: 1'' @ newline # ''gpu_mem=16''"
    by (simp add: comment_str_full_def example_two_line_value_def)
  have rest: "concat (map split_lines [''dtparam=audio=on'', ''hdmi_group=2'']) =
      [''dtparam=audio=on'', ''hdmi_group=2'']"
    by (simp add: split_lines_line newline_def)
  have ne: "''### foo: 1'' @ newline # ''gpu_mem=16'' \<noteq> ''### foo: 1''"
    by simp
  have nf1: "\<not> str_in (comment_str_name ''foo'') ''dtparam=audio=on''"
    and nf2: "\<not> str_in (comment_str_name ''foo'') ''hdmi_group=2''"
    by (simp_all add: comment_str_name_def)
  have sc: "set_comment (BootConfig_init boot_config_standard_path) ''foo'' example_two_line_value
      example_world =
      (Inr (), write_lines boot_config_standard_path
         [''### foo: 1'' @ newline # ''gpu_mem=16'', ''dtparam=audio=on'', ''hdmi_group=2'']
         example_world)"
    using nf1 nf2
    by (simp add: set_comment_def read_file_contents_as_lines_def full BootConfig_init_def
          example_world_def)
  have fl: "files (write_lines boot_config_standard_path
         [''### foo: 1'' @ newline # ''gpu_mem=16'', ''dtparam=audio=on'', ''hdmi_group=2'']
         example_world) boot_config_standard_path =
      Some (File True [''### foo: 1'', ''gpu_mem=16'', ''dtparam=audio=on'', ''hdmi_group=2''])"
    using sp rest by (simp add: write_lines_def example_world_def)
  have gc: "get_comment (BootConfig_init boot_config_standard_path) ''foo'' example_two_line_value
      (write_lines boot_config_standard_path
         [''### foo: 1'' @ newline # ''gpu_mem=16'', ''dtparam=audio=on'', ''hdmi_group=2'']
         example_world) = Inr False"
    using fl by (simp add: get_comment_def read_file_contents_as_lines_def BootConfig_init_def full)
  show ?thesis
    using sc fl gc full ne by simp
qed



text \<open>
  Where a target that exists can be read, \<^verbatim>\<open>check_corrupt_config\<close> returns \<open>True\<close>
  exactly when the file the coordinator currently reads is corrupt; then the coordinator
  is writable and the staged copy holds the packaged default document, and in both cases
  the target is as it was. The other hypotheses say that the calls on the way can succeed:
  the lock is free, a temporary name is available, the default document is there and
  readable.
\<close>

theorem check_corrupt_config_recovers:
  assumes "valid_state c"
    and "state c = Some 0 \<longrightarrow> lockpath c \<notin> locked_elsewhere w \<and> lockpath c \<notin> locks_held w"
    and "state c \<noteq> Some 2 \<longrightarrow>
           (\<exists>n \<in> set (tmp_names w). files w n = None) \<and> path c \<notin> set (tmp_names w) \<and>
           (\<forall>f. files w (path c) = Some f \<longrightarrow> readable f)"
    and "files w default_config_path = Some (File True dflt)"
    and "temp_path c \<noteq> Some default_config_path" and "temp_path c \<noteq> Some (path c)"
  shows "case check_corrupt_config (c, w) of (r, c', w') \<Rightarrow>
           r = Inr (corrupt_now c w) \<and> files w' (path c) = files w (path c) \<and>
           (corrupt_now c w \<longrightarrow>
              state c' = Some 2 \<and>
              (\<exists>t. temp_path c' = Some t \<and> bc_path (temp_config c') = t \<and>
                   files w' t = Some (File True dflt))) \<and>
           (\<not> corrupt_now c w \<longrightarrow> files w' = files w \<and> temp_path c' = temp_path c)"
proof -
  consider (idle) "state c = Some 0" | (locked) "state c = Some 1" | (writable) "state c = Some 2"
    using assms(1) by (auto simp: valid_state_def split: if_splits)
  then show ?thesis
  proof cases
    case idle
    let ?c1 = "c\<lparr>state := Some 1, lock := Some (lockpath c)\<rparr>"
    let ?w1 = "w\<lparr>locks_held := insert (lockpath c) (locks_held w)\<rparr>"
    have red: "check_corrupt_config (c, w) = check_corrupt_config (?c1, ?w1)"
      using check_corrupt_config_idle [of c w] idle assms(2) by simp
    have same: "corrupt_now ?c1 ?w1 = corrupt_now c w"
      by (simp add: corrupt_now_def)
    show ?thesis
    proof (cases "corrupt_now c w")
      case True
      have "case check_corrupt_config (?c1, ?w1) of (r, c', w') \<Rightarrow>
           r = Inr True \<and> files w' (path ?c1) = files ?w1 (path ?c1) \<and> state c' = Some 2 \<and>
           (\<exists>t. temp_path c' = Some t \<and> bc_path (temp_config c') = t \<and>
                files w' t = Some (File True dflt))"
        using idle assms(3,4) True same
        by (intro check_corrupt_config_locked_result) simp_all
      then show ?thesis
        unfolding red using True by (auto split: prod.splits)
    next
      case False
      have "check_corrupt_config (?c1, ?w1) = (Inr False, (?c1, ?w1))"
        using False same by (intro check_corrupt_config_sound) simp_all
      then show ?thesis
        unfolding red using False by simp
    qed
  next
    case locked
    show ?thesis
    proof (cases "corrupt_now c w")
      case True
      then show ?thesis
        using check_corrupt_config_locked_result [of c w dflt] locked assms(3,4)
        by (auto split: prod.splits)
    next
      case False
      then show ?thesis
        using check_corrupt_config_sound [of c w] locked by simp
    qed
  next
    case writable
    from assms(1) writable obtain t where tp: "temp_path c = Some t"
      and tc: "bc_path (temp_config c) = t"
      by (auto simp: valid_state_def)
    show ?thesis
    proof (cases "corrupt_now c w")
      case True
      have "check_corrupt_config (c, w) =
           (Inr True, (c\<lparr>state := Some 2\<rparr>,
                       w\<lparr>files := (files w)(t \<mapsto> File True dflt),
                         trace := trace w @ [Copy default_config_path t]\<rparr>))"
        using check_corrupt_config_writable [OF writable True tp assms(4)] assms(5) tp by simp
      then show ?thesis
        using True tp tc assms(6) by simp
    next
      case False
      then show ?thesis
        using check_corrupt_config_sound [of c w] writable by simp
    qed
  qed
qed

theorem check_corrupt_config_recovers_witness:
  "valid_state example_idle \<and> state example_idle = Some 0 \<and>
   lockpath example_idle \<notin> locked_elsewhere example_corrupt_world \<and>
   lockpath example_idle \<notin> locks_held example_corrupt_world \<and>
   ''/boot/config_tmp_a'' \<in> set (tmp_names example_corrupt_world) \<and>
   files example_corrupt_world ''/boot/config_tmp_a'' = None \<and>
   path example_idle \<notin> set (tmp_names example_corrupt_world) \<and>
   files example_corrupt_world (path example_idle) = Some (File True [''hdmi_group=2'']) \<and>
   files example_corrupt_world default_config_path =
     Some (File True [''# default'', ''dtparam=audio=on'']) \<and>
   (case check_corrupt_config (example_idle, example_corrupt_world) of (r, c', w') \<Rightarrow>
      r = Inr True \<and> state c' = Some 2 \<and>
      files w' (path example_idle) = Some (File True [''hdmi_group=2'']) \<and>
      files w' (the (temp_path c')) = Some (File True [''# default'', ''dtparam=audio=on'']))"
proof -
  have h1: "valid_state example_idle"
    by (simp add: valid_state_def example_idle_def BootConfig_init_def)
  have h2: "state example_idle = Some 0 \<longrightarrow>
      lockpath example_idle \<notin> locked_elsewhere example_corrupt_world \<and>
      lockpath example_idle \<notin> locks_held example_corrupt_world"
    by (simp add: example_corrupt_world_def example_world_def)
  have h3: "state example_idle \<noteq> Some 2 \<longrightarrow>
      (\<exists>n \<in> set (tmp_names example_corrupt_world). files example_corrupt_world n = None) \<and>
      path example_idle \<notin> set (tmp_names example_corrupt_world) \<and>
      (\<forall>f. files example_corrupt_world (path example_idle) = Some f \<longrightarrow> readable f)"
    by (auto simp: example_corrupt_world_def example_world_def example_idle_def
          boot_config_standard_path_def default_config_path_def)
  have h4: "files example_corrupt_world default_config_path =
     Some (File True [''# default'', ''dtparam=audio=on''])"
    by (simp add: example_corrupt_world_def example_world_def)
  have h5: "temp_path example_idle \<noteq> Some default_config_path"
    and h6: "temp_path example_idle \<noteq> Some (path example_idle)"
    by (simp_all add: example_idle_def)
  have h7: "corrupt_now example_idle example_corrupt_world"
    by (simp add: corrupt_now_def example_corrupt_world_def example_idle_def BootConfig_init_def)
  have h8: "files example_corrupt_world (path example_idle) = Some (File True [''hdmi_group=2''])"
    by (simp add: example_corrupt_world_def example_idle_def)
  have h0: "state example_idle = Some 0 \<and>
      lockpath example_idle \<notin> locked_elsewhere example_corrupt_world \<and>
      lockpath example_idle \<notin> locks_held example_corrupt_world \<and>
      ''/boot/config_tmp_a'' \<in> set (tmp_names example_corrupt_world) \<and>
      files example_corrupt_world ''/boot/config_tmp_a'' = None \<and>
      path example_idle \<notin> set (tmp_names example_corrupt_world)"
    by (simp add: example_corrupt_world_def example_world_def example_idle_def
          boot_config_standard_path_def default_config_path_def)
  from h0 h1 h4 h7 h8 check_corrupt_config_recovers [OF h1 h2 h3 h4 h5 h6]
  show ?thesis
    by (auto split: prod.splits)
qed

text \<open>
  Claim C5: \<^verbatim>\<open>check_corrupt_config\<close> returns \<open>True\<close> exactly when the current
  configuration is corrupt, and then the staged copy holds the packaged default document.
  The code breaks this for a target that exists and cannot be read: \<^verbatim>\<open>check_corrupt\<close>
  reports it corrupt, but \<^verbatim>\<open>copy_from\<close> first stages a copy of that very file, the copy
  raises, and the caller gets the error instead of \<open>True\<close>; an empty temporary file is
  left behind and nothing holds the default document.
\<close>

theorem check_corrupt_config_unreadable_raises:
  "check_corrupt (BootConfig_init boot_config_standard_path) example_unreadable_world = Inr True \<and>
   fst (check_corrupt_config (example_idle, example_unreadable_world)) = Inl IOError \<and>
   state (fst (snd (check_corrupt_config (example_idle, example_unreadable_world)))) = Some 1 \<and>
   files (snd (snd (check_corrupt_config (example_idle, example_unreadable_world))))
     boot_config_standard_path = files example_unreadable_world boot_config_standard_path \<and>
   files (snd (snd (check_corrupt_config (example_idle, example_unreadable_world))))
     ''/boot/config_tmp_a'' = Some (File True [])"
  by (simp add: check_corrupt_config_def raise_state_to_locked_def open_locked_def
        check_corrupt_def os_path_exists_def read_file_contents_as_lines_def copy_from_def
        set_state_writable_def NamedTemporaryFile_def shutil_copy2_def Let_def
        example_unreadable_world_def example_world_def example_idle_def BootConfig_init_def
        boot_config_standard_path_def default_config_path_def)

text \<open>
  Claim C7, as amended: once \<^verbatim>\<open>set_dry_run\<close> has been called, any number of cycles of
  set operations and \<^verbatim>\<open>close\<close> leave the target as it was, and the \<open>i\<close>-th cycle
  leaves behind a staged copy of its own. That copy starts from the seed, which is the
  target's content (or the default document's, when there is no target), and holds the
  seed with the set operations of that cycle alone applied in order, each as
  \<^verbatim>\<open>set_value\<close> and \<^verbatim>\<open>set_comment\<close> apply it. These write nothing to a file without
  lines: when the seed has no lines, every staged copy stays empty and reflects no write.
\<close>

theorem dry_run_cycles_stage_separately:
  assumes "state c = Some 0" and "lock c = None" and "temp_path c = None"
    and "temp_config c = BootConfig_init (path c)"
    and "lockpath c \<notin> locked_elsewhere w" and "lockpath c \<notin> locks_held w"
    and "distinct (tmp_names w)" and "\<forall>n \<in> set (tmp_names w). files w n = None"
    and "path c \<notin> set (tmp_names w)"
    and "files w (if files w (path c) \<noteq> None then path c else default_config_path)
           = Some (File True seed)"
    and "length cycles \<le> length (tmp_names w)" and "\<forall>xs \<in> set cycles. xs \<noteq> []"
  shows "case run_cycles P cycles (c, set_dry_run w) of (r, c', w') \<Rightarrow>
           r = Inr () \<and> c' = c \<and> files w' (path c) = files w (path c) \<and>
           (\<forall>i < length cycles.
              files w' (tmp_names w ! i) =
                Some (File True (foldl (\<lambda>l x. setop_lines P x l) seed (cycles ! i)))) \<and>
           (seed = [] \<longrightarrow>
              (\<forall>i < length cycles. files w' (tmp_names w ! i) = Some (File True [])))"
proof -
  have "\<exists>w'. run_cycles P cycles (c, set_dry_run w) = (Inr (), (c, w')) \<and>
           (\<forall>i < length cycles.
              files w' (tmp_names w ! i) =
                Some (File True (foldl (\<lambda>l x. setop_lines P x l) seed (cycles ! i)))) \<and>
           (\<forall>p. p \<notin> set (take (length cycles) (tmp_names w)) \<longrightarrow> files w' p = files (set_dry_run w) p)"
    using assms(5-12)
    by (intro run_cycles_dry [OF assms(1-4)]) (simp_all add: set_dry_run_def)
  then obtain w' where run: "run_cycles P cycles (c, set_dry_run w) = (Inr (), (c, w'))"
    and staged: "\<forall>i < length cycles.
              files w' (tmp_names w ! i) =
                Some (File True (foldl (\<lambda>l x. setop_lines P x l) seed (cycles ! i)))"
    and frame: "\<forall>p. p \<notin> set (take (length cycles) (tmp_names w)) \<longrightarrow> files w' p = files (set_dry_run w) p"
    by blast
  have "path c \<notin> set (take (length cycles) (tmp_names w))"
    using assms(9) by (auto dest: in_set_takeD)
  then have "files w' (path c) = files w (path c)"
    using frame by (simp add: set_dry_run_def)
  moreover have "seed = [] \<longrightarrow>
      (\<forall>i < length cycles. files w' (tmp_names w ! i) = Some (File True []))"
    using staged by (simp add: foldl_setop_lines_empty)
  ultimately show ?thesis
    using run staged by simp
qed

theorem dry_run_cycles_stage_separately_witness:
  "state example_idle = Some 0 \<and> lock example_idle = None \<and> temp_path example_idle = None \<and>
   temp_config example_idle = BootConfig_init (path example_idle) \<and>
   lockpath example_idle \<notin> locked_elsewhere example_world \<and>
   lockpath example_idle \<notin> locks_held example_world \<and>
   distinct (tmp_names example_world) \<and>
   tmp_names example_world = [''/boot/config_tmp_a'', ''/boot/config_tmp_b''] \<and>
   files example_world ''/boot/config_tmp_a'' = None \<and>
   files example_world ''/boot/config_tmp_b'' = None \<and>
   path example_idle \<notin> set (tmp_names example_world) \<and>
   (case run_cycles example_parser [[SetComment ''a'' ''1''], [SetValue ''x'' PyNone Filter_ALL, SetComment ''b'' ''2'']]
           (example_idle, set_dry_run example_world) of (r, c', w') \<Rightarrow>
      r = Inr () \<and> c' = example_idle \<and>
      files w' (path example_idle) = Some (File True [''dtparam=audio=on'', ''hdmi_group=2'']) \<and>
      files w' ''/boot/config_tmp_a'' =
        Some (File True [''### a: 1'', ''dtparam=audio=on'', ''hdmi_group=2'']) \<and>
      files w' ''/boot/config_tmp_b'' =
        Some (File True [''### b: 2'', ''dtparam=audio=on'', ''hdmi_group=2'']))"
proof -
  have h1: "state example_idle = Some 0" and h2: "lock example_idle = None"
    and h3: "temp_path example_idle = None"
    and h4: "temp_config example_idle = BootConfig_init (path example_idle)"
    by (simp_all add: example_idle_def)
  have h5: "lockpath example_idle \<notin> locked_elsewhere example_world"
    and h6: "lockpath example_idle \<notin> locks_held example_world"
    and h7: "distinct (tmp_names example_world)"
    by (simp_all add: example_world_def)
  have h8: "\<forall>n \<in> set (tmp_names example_world). files example_world n = None"
    by (simp add: example_world_def boot_config_standard_path_def default_config_path_def)
  have h9: "path example_idle \<notin> set (tmp_names example_world)"
    by (simp add: example_world_def example_idle_def boot_config_standard_path_def)
  have h10: "files example_world
      (if files example_world (path example_idle) \<noteq> None then path example_idle
       else default_config_path) = Some (File True [''dtparam=audio=on'', ''hdmi_group=2''])"
    by (simp add: example_world_def example_idle_def)
  have h11: "length [[SetComment ''a'' ''1''], [SetValue ''x'' PyNone Filter_ALL, SetComment ''b'' ''2'']]
      \<le> length (tmp_names example_world)"
    by (simp add: example_world_def)
  have h12: "\<forall>xs \<in> set [[SetComment ''a'' ''1''], [SetValue ''x'' PyNone Filter_ALL, SetComment ''b'' ''2'']].
      xs \<noteq> []"
    by simp
  have tn: "tmp_names example_world = [''/boot/config_tmp_a'', ''/boot/config_tmp_b'']"
    by (simp add: example_world_def)
  have tgt: "files example_world (path example_idle) =
      Some (File True [''dtparam=audio=on'', ''hdmi_group=2''])"
    by (simp add: example_world_def example_idle_def)
  have ps: "parser_set_dump example_parser = (\<lambda>lines name val config_filter. lines)"
    by (simp add: example_parser_def)
  from dry_run_cycles_stage_separately [OF h1 h2 h3 h4 h5 h6 h7 h8 h9 h10 h11 h12, of example_parser]
  have "case run_cycles example_parser [[SetComment ''a'' ''1''], [SetValue ''x'' PyNone Filter_ALL, SetComment ''b'' ''2'']]
           (example_idle, set_dry_run example_world) of (r, c', w') \<Rightarrow>
      r = Inr () \<and> c' = example_idle \<and>
      files w' (path example_idle) = Some (File True [''dtparam=audio=on'', ''hdmi_group=2'']) \<and>
      files w' ''/boot/config_tmp_a'' =
        Some (File True [''### a: 1'', ''dtparam=audio=on'', ''hdmi_group=2'']) \<and>
      files w' ''/boot/config_tmp_b'' =
        Some (File True [''### b: 2'', ''dtparam=audio=on'', ''hdmi_group=2''])"
    by (auto simp: tn tgt ps comment_str_full_def comment_str_name_def all_less_two
          split_lines_line newline_def
          split: prod.splits)
  moreover have "files example_world ''/boot/config_tmp_a'' = None \<and>
      files example_world ''/boot/config_tmp_b'' = None"
    using h8 tn by simp
  ultimately show ?thesis
    using h1 h2 h3 h4 h5 h6 h7 h9 tn by blast
qed

text \<open>
  The claim as it was stated has the staged content reflect all writes of all cycles. Two
  cycles, each setting one comment, show that it does not: the second staged copy starts
  again from the target and lacks the comment of the first cycle.
\<close>

theorem dry_run_staged_copies_counterexample:
  "fst example_dry_run_result = Inr () \<and>
   files (snd (snd example_dry_run_result)) ''/boot/config_tmp_a'' =
     Some (File True [''### a: 1'', ''dtparam=audio=on'', ''hdmi_group=2'']) \<and>
   files (snd (snd example_dry_run_result)) ''/boot/config_tmp_b'' =
     Some (File True [''### b: 2'', ''dtparam=audio=on'', ''hdmi_group=2'']) \<and>
   files (snd (snd example_dry_run_result)) boot_config_standard_path =
     Some (File True [''dtparam=audio=on'', ''hdmi_group=2'']) \<and>
   get_comment (BootConfig_init ''/boot/config_tmp_b'') ''a'' ''1'' (snd (snd example_dry_run_result))
     = Inr False"
  by (simp add: example_dry_run_result_def set_close_cycle_def set_config_comment_def
        set_state_writable_def raise_state_to_locked_def open_locked_def NamedTemporaryFile_def
        os_path_exists_def shutil_copy2_def set_comment_def read_file_contents_as_lines_def
        write_lines_def split_lines_line newline_def comment_str_full_def comment_str_name_def close_def set_state_idle_def
        lock_close_def get_comment_def set_dry_run_def example_idle_def example_world_def
        BootConfig_init_def boot_config_standard_path_def default_config_path_def Let_def)

end
